theory Spec2Isabelle
  imports Main
begin

section \<open>Data transfer between storage connectors\<close>

text \<open>
  A shallow embedding of \<^verbatim>\<open>resolwe/storage/connectors/transfer.py\<close>: the retry
  decorator \<^verbatim>\<open>retry_on_transfer_error\<close> and the class \<^verbatim>\<open>Transfer\<close> with its
  methods \<^verbatim>\<open>pre_processing\<close>, \<^verbatim>\<open>post_processing\<close>, \<^verbatim>\<open>transfer_rec\<close> and
  \<^verbatim>\<open>transfer\<close>.

  Python statements that call a connector change the outside world and may raise. A
  statement is therefore a function from the world to a triple: the outcome (\<open>Inl\<close> the
  exception raised, \<open>Inr\<close> the value returned), the connector calls made, in order, and
  the world afterwards. The world after a raise is kept: what a failed attempt did to
  the storage stays done.
\<close>

subsection \<open>Exceptions\<close>

text \<open>
  The exception classes the module names, each with its message (\<^verbatim>\<open>str(e)\<close>).
  \<open>IndexError\<close> is what \<^verbatim>\<open>xs[0]\<close> raises on an empty list, \<open>UnboundLocalError\<close>
  what reading an unassigned local raises; \<open>OtherException\<close> stands for every other
  subclass of \<^verbatim>\<open>Exception\<close>.
\<close>

datatype exn =
    DataTransferError string
  | RequestsConnectionError string
  | ReadTimeout string
  | ServiceUnavailable string
  | IndexError string
  | UnboundLocalError string
  | OtherException string

fun str_exn :: "exn \<Rightarrow> string" where
  "str_exn (DataTransferError m) = m"
| "str_exn (RequestsConnectionError m) = m"
| "str_exn (ReadTimeout m) = m"
| "str_exn (ServiceUnavailable m) = m"
| "str_exn (IndexError m) = m"
| "str_exn (UnboundLocalError m) = m"
| "str_exn (OtherException m) = m"

definition ERROR_MAX_RETRIES :: nat where
  "ERROR_MAX_RETRIES = 3"

text \<open>
  \<^verbatim>\<open>transfer_exceptions\<close>: the classes an \<^verbatim>\<open>except transfer_exceptions\<close> clause
  catches. \<^verbatim>\<open>ServiceUnavailable\<close> is in the tuple whenever the class can be imported,
  that is whenever such an exception can exist at all.
\<close>

fun is_transfer_exception :: "exn \<Rightarrow> bool" where
  "is_transfer_exception (DataTransferError m) = True"
| "is_transfer_exception (RequestsConnectionError m) = True"
| "is_transfer_exception (ReadTimeout m) = True"
| "is_transfer_exception (ServiceUnavailable m) = True"
| "is_transfer_exception (IndexError m) = False"
| "is_transfer_exception (UnboundLocalError m) = False"
| "is_transfer_exception (OtherException m) = False"

fun is_DataTransferError :: "exn \<Rightarrow> bool" where
  "is_DataTransferError (DataTransferError m) = True"
| "is_DataTransferError (RequestsConnectionError m) = False"
| "is_DataTransferError (ReadTimeout m) = False"
| "is_DataTransferError (ServiceUnavailable m) = False"
| "is_DataTransferError (IndexError m) = False"
| "is_DataTransferError (UnboundLocalError m) = False"
| "is_DataTransferError (OtherException m) = False"

subsection \<open>Connector calls and statements\<close>

datatype side = Source | Destination

text \<open>
  One event per call that leaves \<^verbatim>\<open>transfer.py\<close>. \<open>Invoke\<close> marks the entry into
  the body of \<^verbatim>\<open>Transfer.transfer\<close> (the function the decorator wraps); \<open>RunStages\<close>
  is the thread pool running download, hash and upload, with the chunk size of the
  hasher it was given. A list argument is given by its address.
\<close>

datatype event =
    Invoke string string
  | GetHash side string string
  | RunStages string string nat
  | Delete string
  | SetHashes string
  | GetObjectList string
  | BeforeGet nat string
  | BeforePush nat string
  | AfterGet nat string
  | AfterPush nat string

type_synonym ('w, 'a) stmt = "'w \<Rightarrow> (exn + 'a) \<times> event list \<times> 'w"

definition ret :: "'a \<Rightarrow> ('w, 'a) stmt" where
  "ret x w = (Inr x, [], w)"

definition raise :: "exn \<Rightarrow> ('w, 'a) stmt" where
  "raise e w = (Inl e, [], w)"

definition emit :: "event \<Rightarrow> ('w, unit) stmt" where
  "emit ev w = (Inr (), [ev], w)"

text \<open>A call of an external operation \<open>f\<close>, recorded as the event \<open>ev\<close>.\<close>

definition call :: "event \<Rightarrow> ('w \<Rightarrow> (exn + 'a) \<times> 'w) \<Rightarrow> ('w, 'a) stmt" where
  "call ev f w = (case f w of (r, w') \<Rightarrow> (r, [ev], w'))"

text \<open>Sequencing: an exception of the first statement skips the rest.\<close>

definition andthen :: "('w, 'a) stmt \<Rightarrow> ('a \<Rightarrow> ('w, 'b) stmt) \<Rightarrow> ('w, 'b) stmt" where
  "andthen m f w =
     (case m w of
        (Inl e, evs, w') \<Rightarrow> (Inl e, evs, w')
      | (Inr x, evs, w') \<Rightarrow> (case f x w' of (r, evs', w'') \<Rightarrow> (r, evs @ evs', w'')))"

text \<open>\<^verbatim>\<open>with suppress(Exception): m\<close>\<close>

definition suppress :: "('w, unit) stmt \<Rightarrow> ('w, unit) stmt" where
  "suppress m w = (case m w of (r, evs, w') \<Rightarrow> (Inr (), evs, w'))"

text \<open>\<^verbatim>\<open>try: m  except Exception: raise e\<close>\<close>

definition reraise_as :: "exn \<Rightarrow> ('w, 'a) stmt \<Rightarrow> ('w, 'a) stmt" where
  "reraise_as e m w =
     (case m w of
        (Inl e', evs, w') \<Rightarrow> (Inl e, evs, w')
      | (Inr x, evs, w') \<Rightarrow> (Inr x, evs, w'))"

text \<open>\<^verbatim>\<open>xs[0]\<close>\<close>

definition index0 :: "'a list \<Rightarrow> ('w, 'a) stmt" where
  "index0 xs = (case xs of [] \<Rightarrow> raise (IndexError ''list index out of range'')
                         | x # _ \<Rightarrow> ret x)"

subsection \<open>The retry decorator\<close>

text \<open>
  \<^verbatim>\<open>
  for _ in range(ERROR_MAX_RETRIES):
      try:
          return wrapped(*args, **kwargs)
      except transfer_exceptions as err:
          connection_err = err
  raise connection_err
  \<close>
  The first argument counts the iterations left, the second is \<^verbatim>\<open>connection_err\<close>
  (\<open>None\<close> while unassigned).
\<close>

fun retry_loop :: "nat \<Rightarrow> exn option \<Rightarrow> ('w, 'a) stmt \<Rightarrow> ('w, 'a) stmt" where
  "retry_loop 0 connection_err wrapped w =
     (case connection_err of
        None \<Rightarrow> raise (UnboundLocalError ''connection_err'') w
      | Some err \<Rightarrow> raise err w)"
| "retry_loop (Suc n) connection_err wrapped w =
     (case wrapped w of
        (Inr x, evs, w') \<Rightarrow> (Inr x, evs, w')
      | (Inl err, evs, w') \<Rightarrow>
          if is_transfer_exception err
          then (case retry_loop n (Some err) wrapped w' of
                  (r, evs', w'') \<Rightarrow> (r, evs @ evs', w''))
          else (Inl err, evs, w'))"

definition retry_on_transfer_error :: "('w, 'a) stmt \<Rightarrow> ('w, 'a) stmt" where
  "retry_on_transfer_error wrapped = retry_loop ERROR_MAX_RETRIES None wrapped"

subsection \<open>Connectors, the hasher and the runtime\<close>

text \<open>
  Modelled from the spec: \<^verbatim>\<open>BaseStorageConnector\<close> (baseconnector.py is not among the
  sources). A connector is the record of its attributes and operations; every operation
  acts on the world and may raise. \<open>multipart_chunksize\<close> is \<open>None\<close> when the
  connector has no such attribute (\<^verbatim>\<open>hasattr\<close> is false). The four hooks and
  \<open>get_object_list\<close> work on Python lists, which are mutable and compared by identity:
  they see the world together with the store of lists (address to contents) and return
  the address of a list.
\<close>

type_synonym lists = "nat \<Rightarrow> string list"

record 'w connector =
  supported_download_hash :: "string list"
  supported_upload_hash :: "string list"
  multipart_chunksize :: "nat option"
  get_hash :: "string \<Rightarrow> string \<Rightarrow> 'w \<Rightarrow> (exn + string option) \<times> 'w"
  set_hashes :: "string \<Rightarrow> (string \<rightharpoonup> string) \<Rightarrow> 'w \<Rightarrow> (exn + unit) \<times> 'w"
  delete :: "string \<Rightarrow> 'w \<Rightarrow> (exn + unit) \<times> 'w"
  get_object_list :: "string \<Rightarrow> 'w \<times> lists \<Rightarrow> (exn + nat) \<times> ('w \<times> lists)"
  before_get :: "nat \<Rightarrow> string \<Rightarrow> 'w \<times> lists \<Rightarrow> (exn + nat) \<times> ('w \<times> lists)"
  before_push :: "nat \<Rightarrow> string \<Rightarrow> 'w \<times> lists \<Rightarrow> (exn + unit) \<times> ('w \<times> lists)"
  after_get :: "nat \<Rightarrow> string \<Rightarrow> 'w \<times> lists \<Rightarrow> (exn + unit) \<times> ('w \<times> lists)"
  after_push :: "nat \<Rightarrow> string \<Rightarrow> 'w \<times> lists \<Rightarrow> (exn + nat option) \<times> ('w \<times> lists)"

text \<open>
  Modelled from the spec: \<^verbatim>\<open>StreamHasher\<close> (hasher.py is not among the sources). The
  constructor stores the chunk size it is given; once the stream has been consumed,
  \<^verbatim>\<open>hexdigest(algo)\<close> yields the final value for every algorithm.
\<close>

record StreamHasher =
  chunk_size :: nat

definition StreamHasher_init :: "nat \<Rightarrow> StreamHasher" where
  "StreamHasher_init n = \<lparr>chunk_size = n\<rparr>"

text \<open>
  What \<^verbatim>\<open>transfer.py\<close> takes from outside the connectors:
  \<^item> \<open>run_stages hasher from_url to_url\<close>: the thread pool that runs
    \<^verbatim>\<open>from_connector.get\<close>, \<^verbatim>\<open>hasher.compute\<close> and \<^verbatim>\<open>to_connector.push\<close>, linked
    by two circular buffers, until all three futures are done. It yields the exception
    of each future (\<open>None\<close> when the stage returned) and the hasher's \<^verbatim>\<open>hexdigest\<close>;
  \<^item> \<open>KNOWN_HASH_TYPES\<close>: the class constant of the hasher;
  \<^item> \<open>Path\<close> and \<open>joinpath\<close>: \<^verbatim>\<open>pathlib.Path(url)\<close> and \<^verbatim>\<open>url / entry\<close>.
\<close>

record 'w runtime =
  run_stages :: "StreamHasher \<Rightarrow> string \<Rightarrow> string \<Rightarrow> 'w \<Rightarrow>
                 (exn option \<times> exn option \<times> exn option \<times> (string \<Rightarrow> string)) \<times> 'w"
  KNOWN_HASH_TYPES :: "string list"
  Path :: "string \<Rightarrow> string"
  joinpath :: "string \<Rightarrow> string \<Rightarrow> string"

record 'w Transfer =
  from_connector :: "'w connector"
  to_connector :: "'w connector"

subsection \<open>Python built-ins\<close>

text \<open>\<^verbatim>\<open>sep.join(xs)\<close>\<close>

fun join :: "string \<Rightarrow> string list \<Rightarrow> string" where
  "join sep [] = []"
| "join sep [x] = x"
| "join sep (x # y # ys) = x @ sep @ join sep (y # ys)"

text \<open>
  \<^verbatim>\<open>str(n)\<close> for a natural number: its decimal digits. \<open>digit_char\<close> is only
  applied to numbers below ten.
\<close>

definition digit_char :: "nat \<Rightarrow> char" where
  "digit_char d = ''0123456789'' ! d"

function str_nat :: "nat \<Rightarrow> string" where
  "str_nat n = (if n < 10 then [digit_char n] else str_nat (n div 10) @ [digit_char (n mod 10)])"
  by pat_completeness auto
termination
  by (relation "measure id") auto

declare str_nat.simps [simp del]

text \<open>\<^verbatim>\<open>entry.endswith("/")\<close>\<close>

definition endswith_slash :: "string \<Rightarrow> bool" where
  "endswith_slash entry = (entry \<noteq> [] \<and> last entry = CHR ''/'')"

subsection \<open>Transfer.transfer\<close>

text \<open>
  Lines 154 to 169 of \<^verbatim>\<open>transfer\<close>: the check whether the object already exists
  with the right hash. The value is \<open>True\<close> when the function returns at line 169.
  \<^verbatim>\<open>
  to_hashes = self.to_connector.supported_download_hash
  from_hashes = self.from_connector.supported_download_hash
  common_hash = [e for e in to_hashes if e in from_hashes]
  if common_hash:
      hash_type = common_hash[0]
      from_hash = self.from_connector.get_hash(from_url, hash_type)
      to_hash = self.to_connector.get_hash(to_url, hash_type)
      if from_hash == to_hash and from_hash is not None:
          return
  \<close>
\<close>

definition common_hash :: "'w Transfer \<Rightarrow> string list" where
  "common_hash self =
     (let to_hashes = supported_download_hash (to_connector self);
          from_hashes = supported_download_hash (from_connector self)
      in filter (\<lambda>e. e \<in> set from_hashes) to_hashes)"

definition check_existing :: "'w Transfer \<Rightarrow> string \<Rightarrow> string \<Rightarrow> ('w, bool) stmt" where
  "check_existing self from_url to_url =
     (case common_hash self of
        [] \<Rightarrow> ret False
      | hash_type # _ \<Rightarrow>
          andthen (call (GetHash Source from_url hash_type)
                     (get_hash (from_connector self) from_url hash_type)) (\<lambda>from_hash.
          andthen (call (GetHash Destination to_url hash_type)
                     (get_hash (to_connector self) to_url hash_type)) (\<lambda>to_hash.
          ret (from_hash = to_hash \<and> from_hash \<noteq> None))))"

text \<open>
  Lines 171 to 186: the three stages run in the thread pool; when a future holds an
  exception the destination is deleted under \<^verbatim>\<open>suppress(Exception)\<close> and one
  \<^verbatim>\<open>DataTransferError\<close> is raised whose message joins the messages of the stages
  that raised, in the order download, hash, upload. The value is the hasher's
  \<^verbatim>\<open>hexdigest\<close> after the run.
\<close>

definition run_pipeline ::
  "'w runtime \<Rightarrow> 'w Transfer \<Rightarrow> StreamHasher \<Rightarrow> string \<Rightarrow> string \<Rightarrow> ('w, string \<Rightarrow> string) stmt"
where
  "run_pipeline rt self hasher from_url to_url =
     andthen (call (RunStages from_url to_url (chunk_size hasher))
                (\<lambda>w. case run_stages rt hasher from_url to_url w of
                        ((download_task, hash_task, upload_task, hexdigest), w') \<Rightarrow>
                          (Inr ([download_task, hash_task, upload_task], hexdigest), w')))
       (\<lambda>(futures, hexdigest).
          if list_ex (\<lambda>f. f \<noteq> None) futures
          then andthen (suppress (call (Delete to_url) (delete (to_connector self) to_url))) (\<lambda>_.
               let ex = List.map_filter id futures;
                   messages = map str_exn ex
               in raise (DataTransferError (join [CHR 0x0A, CHR 0x0A] messages)))
          else ret hexdigest)"

text \<open>
  Lines 188 to 197: the stored native hashes of both sides are fetched again and
  compared, as a pair, with the digests of the hasher.
\<close>

definition verify ::
  "'w Transfer \<Rightarrow> (string \<Rightarrow> string) \<Rightarrow> string \<Rightarrow> string \<Rightarrow> string \<Rightarrow> string \<Rightarrow> ('w, unit) stmt"
where
  "verify self hexdigest download_hash_type upload_hash_type from_url to_url =
     andthen (call (GetHash Source from_url download_hash_type)
                (get_hash (from_connector self) from_url download_hash_type)) (\<lambda>from_hash.
     andthen (call (GetHash Destination to_url upload_hash_type)
                (get_hash (to_connector self) to_url upload_hash_type)) (\<lambda>to_hash.
     let hasher_from_hash = hexdigest download_hash_type;
         hasher_to_hash = hexdigest upload_hash_type
     in if (from_hash, to_hash) \<noteq> (Some hasher_from_hash, Some hasher_to_hash)
        then andthen (suppress (call (Delete to_url) (delete (to_connector self) to_url))) (\<lambda>_.
             raise (DataTransferError ''''))
        else ret ()))"

text \<open>
  Lines 199 to 207: the digests of all known hash types, and the chunk size of the
  hasher under the key \<^verbatim>\<open>_upload_chunk_size\<close>, are stored as metadata of the
  destination.
\<close>

definition computed_hashes ::
  "'w runtime \<Rightarrow> StreamHasher \<Rightarrow> (string \<Rightarrow> string) \<Rightarrow> (string \<rightharpoonup> string)"
where
  "computed_hashes rt hasher hexdigest =
     (let hashes = map_of (map (\<lambda>hash_type. (hash_type, hexdigest hash_type))
                             (KNOWN_HASH_TYPES rt))
      in hashes(''_upload_chunk_size'' \<mapsto> str_nat (chunk_size hasher)))"

definition store_hashes ::
  "'w runtime \<Rightarrow> 'w Transfer \<Rightarrow> StreamHasher \<Rightarrow> (string \<Rightarrow> string) \<Rightarrow> string \<Rightarrow> ('w, unit) stmt"
where
  "store_hashes rt self hasher hexdigest to_url =
     (let hashes = computed_hashes rt hasher hexdigest
      in call (SetHashes to_url) (set_hashes (to_connector self) to_url hashes))"

text \<open>
  The body of \<^verbatim>\<open>transfer\<close>, the function the decorator wraps. The hasher is built
  with the default chunk size at line 145; lines 151 and 152 assign the connector's
  \<^verbatim>\<open>multipart_chunksize\<close> to the local variable afterwards.
\<close>

definition transfer_wrapped ::
  "'w runtime \<Rightarrow> 'w Transfer \<Rightarrow> string \<Rightarrow> string \<Rightarrow> ('w, unit) stmt"
where
  "transfer_wrapped rt self from_url to_url =
     andthen (emit (Invoke from_url to_url)) (\<lambda>_.
     let hasher_chunk_size = 8 * 1024 * 1024;
         hasher = StreamHasher_init hasher_chunk_size
     in
     andthen (index0 (supported_download_hash (from_connector self))) (\<lambda>download_hash_type.
     andthen (index0 (supported_upload_hash (to_connector self))) (\<lambda>upload_hash_type.
     let hasher_chunk_size =
           (case multipart_chunksize (to_connector self) of
              Some n \<Rightarrow> n
            | None \<Rightarrow> hasher_chunk_size)
     in
     andthen (check_existing self from_url to_url) (\<lambda>exists.
     if exists then ret ()
     else
       andthen (run_pipeline rt self hasher from_url to_url) (\<lambda>hexdigest.
       andthen (verify self hexdigest download_hash_type upload_hash_type from_url to_url) (\<lambda>_.
       store_hashes rt self hasher hexdigest to_url))))))"

text \<open>\<^verbatim>\<open>@retry_on_transfer_error def transfer(self, from_url, to_url)\<close>\<close>

definition transfer :: "'w runtime \<Rightarrow> 'w Transfer \<Rightarrow> string \<Rightarrow> string \<Rightarrow> ('w, unit) stmt" where
  "transfer rt self from_url to_url =
     retry_on_transfer_error (transfer_wrapped rt self from_url to_url)"

subsection \<open>Transfer.transfer_rec\<close>

definition pre_processing :: "'w Transfer \<Rightarrow> string \<Rightarrow> nat \<Rightarrow> ('w \<times> lists, nat) stmt" where
  "pre_processing self url objects =
     andthen (call (BeforeGet objects url)
                (before_get (from_connector self) objects url)) (\<lambda>objects_to_transfer.
     andthen (call (BeforePush objects_to_transfer url)
                (before_push (to_connector self) objects_to_transfer url)) (\<lambda>_.
     ret objects_to_transfer))"

definition post_processing :: "'w Transfer \<Rightarrow> string \<Rightarrow> nat \<Rightarrow> ('w \<times> lists, nat option) stmt" where
  "post_processing self url objects =
     andthen (call (AfterGet objects url)
                (after_get (from_connector self) objects url)) (\<lambda>_.
     andthen (call (AfterPush objects url)
                (after_push (to_connector self) objects url)) (\<lambda>objects_stored.
     ret objects_stored))"

text \<open>
  A statement on the world alone, run where the lists are in scope too:
  \<^verbatim>\<open>transfer\<close> is handed two paths and no list.
\<close>

definition on_world :: "('w, 'a) stmt \<Rightarrow> ('w \<times> lists, 'a) stmt" where
  "on_world m = (\<lambda>(w, h). case m w of (r, evs, w') \<Rightarrow> (r, evs, (w', h)))"

text \<open>
  \<^verbatim>\<open>
  for entry in objects:
      if not entry.endswith("/"):
          self.transfer(url / entry, url / entry)
  \<close>
  over the entries of the list.
\<close>

fun transfer_entries ::
  "'w runtime \<Rightarrow> 'w Transfer \<Rightarrow> string \<Rightarrow> string list \<Rightarrow> ('w \<times> lists, unit) stmt"
where
  "transfer_entries rt self url [] = ret ()"
| "transfer_entries rt self url (entry # rest) =
     andthen (if \<not> endswith_slash entry
              then on_world (transfer rt self (joinpath rt url entry) (joinpath rt url entry))
              else ret ())
       (\<lambda>_. transfer_entries rt self url rest)"

text \<open>
  Lines 101 and 102 of \<^verbatim>\<open>transfer_rec\<close>: without the argument the list of objects
  is obtained from the source connector.
\<close>

definition resolve_objects :: "'w Transfer \<Rightarrow> string \<Rightarrow> nat option \<Rightarrow> ('w \<times> lists, nat) stmt" where
  "resolve_objects self url objects_arg =
     (case objects_arg of
        None \<Rightarrow> call (GetObjectList url) (get_object_list (from_connector self) url)
      | Some given \<Rightarrow> ret given)"

text \<open>
  \<^verbatim>\<open>transfer_rec(self, url, objects=None)\<close>. The loop runs over the list bound to
  \<^verbatim>\<open>objects\<close>, read from the store of lists when the loop starts; the result compares
  \<^verbatim>\<open>objects_stored\<close> with \<^verbatim>\<open>objects\<close> by identity.
\<close>

definition transfer_rec ::
  "'w runtime \<Rightarrow> 'w Transfer \<Rightarrow> string \<Rightarrow> nat option \<Rightarrow> ('w \<times> lists, nat option) stmt"
where
  "transfer_rec rt self url objects_arg =
     andthen (resolve_objects self url objects_arg) (\<lambda>objects.
     andthen (reraise_as (DataTransferError '''') (pre_processing self url objects))
       (\<lambda>objects_to_transfer.
     let url = Path rt url in
     andthen (\<lambda>s. transfer_entries rt self url (snd s objects) s) (\<lambda>_.
     andthen (reraise_as (DataTransferError '''') (post_processing self url objects_to_transfer))
       (\<lambda>objects_stored.
     ret (if objects_stored = Some objects then None else objects_stored)))))"

subsection \<open>The skip condition, stated on the lists of the connectors\<close>

text \<open>
  The condition of C8 in the words of the claim: the two connectors share at least one
  hash algorithm and, for a shared algorithm, the stored hash fetched from the source
  and the stored hash fetched from the destination are both present and equal. An
  algorithm is shared when both lists of download hashes hold it; "for a shared
  algorithm" is read as "for some shared algorithm".
\<close>

definition some_shared_hash_agrees :: "'w Transfer \<Rightarrow> string \<Rightarrow> string \<Rightarrow> 'w \<Rightarrow> bool" where
  "some_shared_hash_agrees self from_url to_url w =
     list_ex
       (\<lambda>algo. algo \<in> set (supported_download_hash (to_connector self))
          \<and> (case fst (get_hash (from_connector self) from_url algo w) of
                Inr (Some h) \<Rightarrow>
                  fst (get_hash (to_connector self) to_url algo w) = Inr (Some h)
              | Inr None \<Rightarrow> False
              | Inl e \<Rightarrow> False))
       (supported_download_hash (from_connector self))"

text \<open>
  The condition with the algorithm pinned: the first entry of the destination's list
  of download hashes that the source's list holds too (\<open>None\<close> when the connectors
  share no algorithm).
\<close>

definition first_shared_algorithm :: "'w Transfer \<Rightarrow> string option" where
  "first_shared_algorithm self =
     List.find (\<lambda>algo. algo \<in> set (supported_download_hash (from_connector self)))
       (supported_download_hash (to_connector self))"

text \<open>
  The stored hashes for that algorithm, fetched from the source and then from the
  destination, are both present and equal.
\<close>

definition stored_hashes_agree :: "'w Transfer \<Rightarrow> string \<Rightarrow> string \<Rightarrow> 'w \<Rightarrow> bool" where
  "stored_hashes_agree self from_url to_url w =
     (case first_shared_algorithm self of
        None \<Rightarrow> False
      | Some algo \<Rightarrow>
          (case get_hash (from_connector self) from_url algo w of
             (Inr (Some h), w1) \<Rightarrow>
               fst (get_hash (to_connector self) to_url algo w1) = Inr (Some h)
           | (Inr None, w1) \<Rightarrow> False
           | (Inl e, w1) \<Rightarrow> False))"

text \<open>An attempt that the decorator follows by another one: it raised a transfer exception.\<close>

fun raised_transfer_exception :: "exn + 'a \<Rightarrow> bool" where
  "raised_transfer_exception (Inl e) = is_transfer_exception e"
| "raised_transfer_exception (Inr x) = False"

text \<open>The runs of the thread pool among the events of a run.\<close>

fun is_RunStages :: "event \<Rightarrow> bool" where
  "is_RunStages (Invoke from_url to_url) = False"
| "is_RunStages (GetHash c url algo) = False"
| "is_RunStages (RunStages from_url to_url n) = True"
| "is_RunStages (Delete url) = False"
| "is_RunStages (SetHashes url) = False"
| "is_RunStages (GetObjectList url) = False"
| "is_RunStages (BeforeGet objects url) = False"
| "is_RunStages (BeforePush objects url) = False"
| "is_RunStages (AfterGet objects url) = False"
| "is_RunStages (AfterPush objects url) = False"

definition ran_pipeline :: "event list \<Rightarrow> bool" where
  "ran_pipeline evs = list_ex is_RunStages evs"

subsection \<open>A small storage world for concrete runs\<close>

text \<open>
  Two connectors over one world, for running the definitions on concrete inputs. The
  world holds the stored hash of the one object on each side (\<open>None\<close> when absent),
  the metadata stored at the destination, the number of coming \<^verbatim>\<open>get_hash\<close>
  calls on the source that will time out, and the number of coming runs of the thread
  pool that will go wrong.
\<close>

record store =
  source_hash :: "string option"
  dest_hash :: "string option"
  dest_meta :: "string \<rightharpoonup> string"
  timeouts :: nat
  bad_runs :: nat

text \<open>
  The source connector. \<open>failing_hook\<close> selects the hook that raises (1 for
  \<^verbatim>\<open>before_get\<close>, 3 for \<^verbatim>\<open>after_get\<close>, anything else for none). When \<open>zipping\<close> is set,
  \<^verbatim>\<open>before_get\<close> packs the objects into one archive: it returns a new list, at the
  address after the one it was given, holding the single name \<^verbatim>\<open>all.zip\<close>.
\<close>

definition source_connector :: "bool \<Rightarrow> nat \<Rightarrow> store connector" where
  "source_connector zipping failing_hook =
     \<lparr>supported_download_hash = [''md5''],
      supported_upload_hash = [''md5''],
      multipart_chunksize = None,
      get_hash = (\<lambda>url algo w.
         if 0 < timeouts w
         then (Inl (ReadTimeout ''read timed out''), w\<lparr>timeouts := timeouts w - 1\<rparr>)
         else (Inr (source_hash w), w)),
      set_hashes = (\<lambda>url hashes w. (Inr (), w)),
      delete = (\<lambda>url w. (Inr (), w\<lparr>source_hash := None\<rparr>)),
      get_object_list = (\<lambda>url s. (Inr 0, s)),
      before_get = (\<lambda>objects url (w, h).
         if failing_hook = 1 then (Inl (OtherException ''before_get''), (w, h))
         else if zipping then (Inr (Suc objects), (w, h(Suc objects := [''all.zip''])))
         else (Inr objects, (w, h))),
      before_push = (\<lambda>objects url s. (Inr (), s)),
      after_get = (\<lambda>objects url s.
         if failing_hook = 3 then (Inl (OtherException ''after_get''), s) else (Inr (), s)),
      after_push = (\<lambda>objects url s. (Inr (Some objects), s))\<rparr>"

text \<open>
  The destination connector, with a multipart chunk size of 5 MiB. \<open>failing_hook\<close>
  selects the hook that raises (2 for \<^verbatim>\<open>before_push\<close>, 4 for \<^verbatim>\<open>after_push\<close>);
  when \<open>delete_fails\<close> is set, \<^verbatim>\<open>delete\<close> raises after removing the object.
\<close>

definition dest_connector :: "bool \<Rightarrow> nat \<Rightarrow> store connector" where
  "dest_connector delete_fails failing_hook =
     \<lparr>supported_download_hash = [''md5''],
      supported_upload_hash = [''md5''],
      multipart_chunksize = Some 5242880,
      get_hash = (\<lambda>url algo w. (Inr (dest_hash w), w)),
      set_hashes = (\<lambda>url hashes w. (Inr (), w\<lparr>dest_meta := hashes\<rparr>)),
      delete = (\<lambda>url w.
         (if delete_fails then Inl (OtherException ''delete'') else Inr (),
          w\<lparr>dest_hash := None\<rparr>)),
      get_object_list = (\<lambda>url s. (Inr 0, s)),
      before_get = (\<lambda>objects url s. (Inr objects, s)),
      before_push = (\<lambda>objects url s.
         if failing_hook = 2 then (Inl (OtherException ''before_push''), s) else (Inr (), s)),
      after_get = (\<lambda>objects url s. (Inr (), s)),
      after_push = (\<lambda>objects url s.
         if failing_hook = 4 then (Inl (OtherException ''after_push''), s)
         else (Inr (Some objects), s))\<rparr>"

text \<open>
  Five behaviours of the thread pool: a faithful copy (the destination then stores
  the hash of the source, and the hasher's digest is that hash), a copy that stores
  different bytes, a run whose download and upload stages raise, and two that go wrong
  only while the world counts bad runs to come: a copy that then stores different
  bytes, and a run whose download stage then raises.
\<close>

datatype stages = Faithful | Corrupting | Failing | FlakyCopy | FlakyDownload

definition hexdigest_of :: "store \<Rightarrow> string \<Rightarrow> string" where
  "hexdigest_of w algo = (case source_hash w of Some d \<Rightarrow> d | None \<Rightarrow> '''')"

definition stages_runtime :: "stages \<Rightarrow> store runtime" where
  "stages_runtime b =
     \<lparr>run_stages = (\<lambda>hasher from_url to_url w.
         case b of
           Faithful \<Rightarrow> ((None, None, None, hexdigest_of w), w\<lparr>dest_hash := source_hash w\<rparr>)
         | Corrupting \<Rightarrow> ((None, None, None, hexdigest_of w), w\<lparr>dest_hash := Some ''0bad''\<rparr>)
         | Failing \<Rightarrow>
             ((Some (RequestsConnectionError ''connection reset''), None,
               Some (OtherException ''stream closed''), hexdigest_of w),
              w\<lparr>dest_hash := Some ''part''\<rparr>)
         | FlakyCopy \<Rightarrow>
             if 0 < bad_runs w
             then ((None, None, None, hexdigest_of w),
                   w\<lparr>dest_hash := Some ''0bad'', bad_runs := bad_runs w - 1\<rparr>)
             else ((None, None, None, hexdigest_of w), w\<lparr>dest_hash := source_hash w\<rparr>)
         | FlakyDownload \<Rightarrow>
             if 0 < bad_runs w
             then ((Some (RequestsConnectionError ''connection reset''), None, None,
                    hexdigest_of w),
                   w\<lparr>dest_hash := Some ''part'', bad_runs := bad_runs w - 1\<rparr>)
             else ((None, None, None, hexdigest_of w), w\<lparr>dest_hash := source_hash w\<rparr>)),
      KNOWN_HASH_TYPES = [''md5'', ''crc32c'', ''awss3etag''],
      Path = (\<lambda>url. url),
      joinpath = (\<lambda>url entry. url @ ''/'' @ entry)\<rparr>"

definition transfer_of :: "bool \<Rightarrow> bool \<Rightarrow> nat \<Rightarrow> store Transfer" where
  "transfer_of zipping delete_fails failing_hook =
     \<lparr>from_connector = source_connector zipping failing_hook,
      to_connector = dest_connector delete_fails failing_hook\<rparr>"

text \<open>A world where the source holds the object and the destination does not.\<close>

definition fresh_store :: "nat \<Rightarrow> store" where
  "fresh_store n =
     \<lparr>source_hash = Some ''d41d'', dest_hash = None, dest_meta = Map.empty, timeouts = n,
      bad_runs = 0\<rparr>"

text \<open>A world where both sides hold the object with the same stored hash.\<close>

definition synced_store :: "nat \<Rightarrow> store" where
  "synced_store n =
     \<lparr>source_hash = Some ''d41d'', dest_hash = Some ''d41d'', dest_meta = Map.empty,
      timeouts = n, bad_runs = 0\<rparr>"

text \<open>The fresh world with \<open>n\<close> bad runs of the thread pool to come.\<close>

definition flaky_store :: "nat \<Rightarrow> store" where
  "flaky_store n = (fresh_store 0)\<lparr>bad_runs := n\<rparr>"

text \<open>The two connectors with a destination whose \<^verbatim>\<open>set_hashes\<close> raises.\<close>

definition unwritable_transfer :: "store Transfer" where
  "unwritable_transfer =
     \<lparr>from_connector = source_connector False 0,
      to_connector = (dest_connector False 0)
        \<lparr>set_hashes := (\<lambda>url hashes w. (Inl (OtherException ''set_hashes''), w))\<rparr>\<rparr>"

text \<open>
  Two connectors that share two algorithms. The source lists \<^verbatim>\<open>md5\<close> first, the
  destination \<^verbatim>\<open>crc32c\<close>; both store the \<^verbatim>\<open>md5\<close> hash of the object and no
  \<^verbatim>\<open>crc32c\<close> hash.
\<close>

definition two_hash_transfer :: "store Transfer" where
  "two_hash_transfer =
     \<lparr>from_connector = (source_connector False 0)
        \<lparr>supported_download_hash := [''md5'', ''crc32c''],
         get_hash := (\<lambda>url algo w.
           (Inr (if algo = ''md5'' then source_hash w else None), w))\<rparr>,
      to_connector = (dest_connector False 0)
        \<lparr>supported_download_hash := [''crc32c'', ''md5''],
         get_hash := (\<lambda>url algo w.
           (Inr (if algo = ''md5'' then dest_hash w else None), w))\<rparr>\<rparr>"

text \<open>The objects \<^verbatim>\<open>["a", "dir/", "b"]\<close> at address 0.\<close>

definition some_lists :: lists where
  "some_lists = (\<lambda>_. [])(0 := [''a'', ''dir/'', ''b''])"

text \<open>The calls of the body of \<^verbatim>\<open>transfer\<close> among the events of a run.\<close>

fun is_Invoke :: "event \<Rightarrow> bool" where
  "is_Invoke (Invoke from_url to_url) = True"
| "is_Invoke (GetHash c url algo) = False"
| "is_Invoke (RunStages from_url to_url n) = False"
| "is_Invoke (Delete url) = False"
| "is_Invoke (SetHashes url) = False"
| "is_Invoke (GetObjectList url) = False"
| "is_Invoke (BeforeGet objects url) = False"
| "is_Invoke (BeforePush objects url) = False"
| "is_Invoke (AfterGet objects url) = False"
| "is_Invoke (AfterPush objects url) = False"

definition invocations :: "event list \<Rightarrow> nat" where
  "invocations evs = length (filter is_Invoke evs)"

section \<open>Properties\<close>

subsection \<open>The retry decorator\<close>

lemmas stmt_defs =
  Let_def ret_def raise_def emit_def call_def andthen_def suppress_def reraise_as_def index0_def

lemma retry_returns:
  assumes "wrapped w = (Inr x, evs, w')"
  shows "retry_on_transfer_error wrapped w = (Inr x, evs, w')"
  using assms by (simp add: retry_on_transfer_error_def ERROR_MAX_RETRIES_def numeral_3_eq_3)

lemma retry_other_exception:
  assumes "wrapped w = (Inl e, evs, w')" and "\<not> is_transfer_exception e"
  shows "retry_on_transfer_error wrapped w = (Inl e, evs, w')"
  using assms by (simp add: retry_on_transfer_error_def ERROR_MAX_RETRIES_def numeral_3_eq_3)

text \<open>The last iteration of the loop: whatever the attempt yields is the outcome.\<close>

lemma retry_loop_last:
  assumes "wrapped w = (r, evs, w')"
  shows "retry_loop (Suc 0) c wrapped w = (r, evs, w')"
proof (cases r)
  case (Inl e)
  with assms show ?thesis by (simp add: raise_def)
next
  case (Inr x)
  with assms show ?thesis by simp
qed

lemma retry_three_attempts:
  assumes "wrapped w0 = (r1, evs1, w1)"
    and "wrapped w1 = (r2, evs2, w2)"
    and "wrapped w2 = (r3, evs3, w3)"
  shows "retry_on_transfer_error wrapped w0 =
           (case r1 of
              Inr x \<Rightarrow> (Inr x, evs1, w1)
            | Inl e1 \<Rightarrow>
                if \<not> is_transfer_exception e1 then (Inl e1, evs1, w1)
                else (case r2 of
                        Inr x \<Rightarrow> (Inr x, evs1 @ evs2, w2)
                      | Inl e2 \<Rightarrow>
                          if \<not> is_transfer_exception e2 then (Inl e2, evs1 @ evs2, w2)
                          else (r3, evs1 @ evs2 @ evs3, w3)))"
proof -
  have last: "retry_loop (Suc 0) c wrapped w2 = (r3, evs3, w3)" for c
    using assms(3) by (rule retry_loop_last)
  show ?thesis
    using assms(1,2) last
    by (simp add: retry_on_transfer_error_def ERROR_MAX_RETRIES_def numeral_3_eq_3
        split: sum.splits)
qed

lemma retry_exhausted:
  assumes "wrapped w0 = (Inl e1, evs1, w1)" and "is_transfer_exception e1"
    and "wrapped w1 = (Inl e2, evs2, w2)" and "is_transfer_exception e2"
    and "wrapped w2 = (Inl e3, evs3, w3)"
  shows "retry_on_transfer_error wrapped w0 = (Inl e3, evs1 @ evs2 @ evs3, w3)"
  using retry_three_attempts [OF assms(1) assms(3) assms(5)] assms(2,4) by simp

subsection \<open>The paths through the body of transfer\<close>

lemma check_existing_no_common:
  assumes "common_hash self = []"
  shows "check_existing self f t w = (Inr False, [], w)"
  using assms by (simp add: check_existing_def ret_def)

lemma check_existing_fetched:
  assumes "common_hash self = h # hs"
    and "get_hash (from_connector self) f h w = (Inr from_hash, w1)"
    and "get_hash (to_connector self) t h w1 = (Inr to_hash, w2)"
  shows "check_existing self f t w =
           (Inr (from_hash = to_hash \<and> from_hash \<noteq> None),
            [GetHash Source f h, GetHash Destination t h], w2)"
  using assms by (simp add: check_existing_def stmt_defs)

lemma check_existing_source_raises:
  assumes "common_hash self = h # hs"
    and "get_hash (from_connector self) f h w = (Inl e, w1)"
  shows "check_existing self f t w = (Inl e, [GetHash Source f h], w1)"
  using assms by (simp add: check_existing_def stmt_defs)

lemma check_existing_dest_raises:
  assumes "common_hash self = h # hs"
    and "get_hash (from_connector self) f h w = (Inr from_hash, w1)"
    and "get_hash (to_connector self) t h w1 = (Inl e, w2)"
  shows "check_existing self f t w =
           (Inl e, [GetHash Source f h, GetHash Destination t h], w2)"
  using assms by (simp add: check_existing_def stmt_defs)

text \<open>Line 169: the object exists with the right hash.\<close>

lemma attempt_skips:
  assumes "supported_download_hash (from_connector self) = dl # dls"
    and "supported_upload_hash (to_connector self) = ul # uls"
    and "check_existing self f t w = (Inr True, evs, w1)"
  shows "transfer_wrapped rt self f t w = (Inr (), Invoke f t # evs, w1)"
  using assms by (simp add: transfer_wrapped_def stmt_defs)

lemma attempt_check_raises:
  assumes "supported_download_hash (from_connector self) = dl # dls"
    and "supported_upload_hash (to_connector self) = ul # uls"
    and "check_existing self f t w = (Inl e, evs, w1)"
  shows "transfer_wrapped rt self f t w = (Inl e, Invoke f t # evs, w1)"
  using assms by (simp add: transfer_wrapped_def stmt_defs)

text \<open>Lines 146 and 147: a connector without a native hash.\<close>

lemma attempt_no_native_hash:
  assumes "supported_download_hash (from_connector self) = []
           \<or> supported_upload_hash (to_connector self) = []"
  shows "transfer_wrapped rt self f t w =
           (Inl (IndexError ''list index out of range''), [Invoke f t], w)"
  using assms by (auto simp add: transfer_wrapped_def stmt_defs split: list.splits)

text \<open>Lines 181 to 186: a stage of the pipeline raised.\<close>

lemma attempt_stage_failure:
  assumes "supported_download_hash (from_connector self) = dl # dls"
    and "supported_upload_hash (to_connector self) = ul # uls"
    and "check_existing self f t w = (Inr False, evs, w1)"
    and "run_stages rt (StreamHasher_init 8388608) f t w1 =
           ((download_task, hash_task, upload_task, hexdigest), w2)"
    and "download_task \<noteq> None \<or> hash_task \<noteq> None \<or> upload_task \<noteq> None"
    and "delete (to_connector self) t w2 = (deleted, w3)"
  shows "transfer_wrapped rt self f t w =
           (Inl (DataTransferError
                  (join [CHR 0x0A, CHR 0x0A]
                     (map str_exn (List.map_filter id [download_task, hash_task, upload_task])))),
            Invoke f t # evs @ [RunStages f t 8388608, Delete t], w3)"
  using assms
  by (auto simp add: transfer_wrapped_def run_pipeline_def StreamHasher_init_def stmt_defs)

text \<open>Lines 194 to 197: the stored hashes differ from the digests.\<close>

lemma attempt_mismatch:
  assumes "supported_download_hash (from_connector self) = dl # dls"
    and "supported_upload_hash (to_connector self) = ul # uls"
    and "check_existing self f t w = (Inr False, evs, w1)"
    and "run_stages rt (StreamHasher_init 8388608) f t w1 = ((None, None, None, hexdigest), w2)"
    and "get_hash (from_connector self) f dl w2 = (Inr from_hash, w3)"
    and "get_hash (to_connector self) t ul w3 = (Inr to_hash, w4)"
    and "(from_hash, to_hash) \<noteq> (Some (hexdigest dl), Some (hexdigest ul))"
    and "delete (to_connector self) t w4 = (deleted, w5)"
  shows "transfer_wrapped rt self f t w =
           (Inl (DataTransferError ''''),
            Invoke f t # evs @ [RunStages f t 8388608, GetHash Source f dl,
                                GetHash Destination t ul, Delete t], w5)"
  using assms
  by (auto simp add: transfer_wrapped_def run_pipeline_def verify_def StreamHasher_init_def
      stmt_defs)

text \<open>Lines 199 to 207: the stored hashes equal the digests.\<close>

lemma attempt_stored:
  assumes "supported_download_hash (from_connector self) = dl # dls"
    and "supported_upload_hash (to_connector self) = ul # uls"
    and "check_existing self f t w = (Inr False, evs, w1)"
    and "run_stages rt (StreamHasher_init 8388608) f t w1 = ((None, None, None, hexdigest), w2)"
    and "get_hash (from_connector self) f dl w2 = (Inr (Some (hexdigest dl)), w3)"
    and "get_hash (to_connector self) t ul w3 = (Inr (Some (hexdigest ul)), w4)"
    and "set_hashes (to_connector self) t
           (computed_hashes rt (StreamHasher_init 8388608) hexdigest) w4 = (stored, w5)"
  shows "transfer_wrapped rt self f t w =
           (stored,
            Invoke f t # evs @ [RunStages f t 8388608, GetHash Source f dl,
                                GetHash Destination t ul, SetHashes t], w5)"
  using assms
  by (simp add: transfer_wrapped_def run_pipeline_def verify_def store_hashes_def
      StreamHasher_init_def stmt_defs)

text \<open>Without the early return the thread pool runs, with a hasher of 8 MiB chunks.\<close>

lemma attempt_runs_stages:
  assumes "supported_download_hash (from_connector self) = dl # dls"
    and "supported_upload_hash (to_connector self) = ul # uls"
    and "check_existing self f t w = (Inr False, evs, w1)"
  shows "\<exists>r rest w'. transfer_wrapped rt self f t w =
           (r, Invoke f t # evs @ RunStages f t 8388608 # rest, w')"
  using assms
  by (simp add: transfer_wrapped_def run_pipeline_def StreamHasher_init_def stmt_defs
      split: prod.splits sum.splits)

lemma attempt_starts_with_Invoke:
  "\<exists>r rest w'. transfer_wrapped rt self f t w = (r, Invoke f t # rest, w')"
  by (simp add: transfer_wrapped_def andthen_def emit_def split: prod.splits sum.splits)

subsection \<open>The concrete connectors\<close>

lemma transfer_of_connectors [simp]:
  "from_connector (transfer_of z d k) = source_connector z k"
  "to_connector (transfer_of z d k) = dest_connector d k"
  by (simp_all add: transfer_of_def)

lemma source_connector_fields [simp]:
  "supported_download_hash (source_connector z k) = [''md5'']"
  "supported_upload_hash (source_connector z k) = [''md5'']"
  "get_hash (source_connector z k) url algo w =
     (if 0 < timeouts w
      then (Inl (ReadTimeout ''read timed out''), w\<lparr>timeouts := timeouts w - 1\<rparr>)
      else (Inr (source_hash w), w))"
  "before_get (source_connector z k) objects url (w, h) =
     (if k = 1 then (Inl (OtherException ''before_get''), (w, h))
      else if z then (Inr (Suc objects), (w, h(Suc objects := [''all.zip''])))
      else (Inr objects, (w, h)))"
  "after_get (source_connector z k) objects url s =
     (if k = 3 then (Inl (OtherException ''after_get''), s) else (Inr (), s))"
  by (simp_all add: source_connector_def)

lemma dest_connector_fields [simp]:
  "supported_download_hash (dest_connector d k) = [''md5'']"
  "supported_upload_hash (dest_connector d k) = [''md5'']"
  "multipart_chunksize (dest_connector d k) = Some 5242880"
  "get_hash (dest_connector d k) url algo w = (Inr (dest_hash w), w)"
  "set_hashes (dest_connector d k) url hashes w = (Inr (), w\<lparr>dest_meta := hashes\<rparr>)"
  "delete (dest_connector d k) url w =
     (if d then Inl (OtherException ''delete'') else Inr (), w\<lparr>dest_hash := None\<rparr>)"
  "before_push (dest_connector d k) objects url s =
     (if k = 2 then (Inl (OtherException ''before_push''), s) else (Inr (), s))"
  "after_push (dest_connector d k) objects url s =
     (if k = 4 then (Inl (OtherException ''after_push''), s) else (Inr (Some objects), s))"
  by (simp_all add: dest_connector_def)

lemma stages_runtime_fields [simp]:
  "run_stages (stages_runtime Faithful) hasher f t w =
     ((None, None, None, hexdigest_of w), w\<lparr>dest_hash := source_hash w\<rparr>)"
  "run_stages (stages_runtime Corrupting) hasher f t w =
     ((None, None, None, hexdigest_of w), w\<lparr>dest_hash := Some ''0bad''\<rparr>)"
  "run_stages (stages_runtime Failing) hasher f t w =
     ((Some (RequestsConnectionError ''connection reset''), None,
       Some (OtherException ''stream closed''), hexdigest_of w),
      w\<lparr>dest_hash := Some ''part''\<rparr>)"
  "KNOWN_HASH_TYPES (stages_runtime b) = [''md5'', ''crc32c'', ''awss3etag'']"
  "Path (stages_runtime b) url = url"
  "joinpath (stages_runtime b) url entry = url @ ''/'' @ entry"
  by (simp_all add: stages_runtime_def)

lemma common_hash_transfer_of [simp]: "common_hash (transfer_of z d k) = [''md5'']"
  by (simp add: common_hash_def)

text \<open>An attempt whose first \<^verbatim>\<open>get_hash\<close> times out.\<close>

lemma attempt_times_out:
  "transfer_wrapped rt (transfer_of z d k) f t (synced_store (Suc n)) =
     (Inl (ReadTimeout ''read timed out''), [Invoke f t, GetHash Source f ''md5''],
      synced_store n)"
proof -
  have "check_existing (transfer_of z d k) f t (synced_store (Suc n)) =
          (Inl (ReadTimeout ''read timed out''), [GetHash Source f ''md5''], synced_store n)"
    by (simp add: check_existing_def stmt_defs synced_store_def)
  then show ?thesis
    by (rule attempt_check_raises [rotated 2]) simp_all
qed

text \<open>An attempt that finds the object in place.\<close>

lemma attempt_on_synced_store:
  "transfer_wrapped rt (transfer_of z d k) f t (synced_store 0) =
     (Inr (), [Invoke f t, GetHash Source f ''md5'', GetHash Destination t ''md5''],
      synced_store 0)"
proof -
  have "check_existing (transfer_of z d k) f t (synced_store 0) =
          (Inr True, [GetHash Source f ''md5'', GetHash Destination t ''md5''], synced_store 0)"
    by (simp add: check_existing_def stmt_defs synced_store_def)
  then show ?thesis
    by (rule attempt_skips [rotated 2]) simp_all
qed

lemma three_attempts_time_out:
  "transfer rt (transfer_of z d k) f t (synced_store (Suc (Suc (Suc n)))) =
     (Inl (ReadTimeout ''read timed out''),
      [Invoke f t, GetHash Source f ''md5'',
       Invoke f t, GetHash Source f ''md5'',
       Invoke f t, GetHash Source f ''md5''],
      synced_store n)"
proof -
  let ?body = "transfer_wrapped rt (transfer_of z d k) f t"
  let ?evs = "[Invoke f t, GetHash Source f ''md5'']"
  have a1: "?body (synced_store (Suc (Suc (Suc n)))) =
              (Inl (ReadTimeout ''read timed out''), ?evs, synced_store (Suc (Suc n)))"
    by (rule attempt_times_out)
  have a2: "?body (synced_store (Suc (Suc n))) =
              (Inl (ReadTimeout ''read timed out''), ?evs, synced_store (Suc n))"
    by (rule attempt_times_out)
  have a3: "?body (synced_store (Suc n)) =
              (Inl (ReadTimeout ''read timed out''), ?evs, synced_store n)"
    by (rule attempt_times_out)
  have t: "is_transfer_exception (ReadTimeout ''read timed out'')" by simp
  show ?thesis
    unfolding transfer_def using retry_exhausted [OF a1 t a2 t a3] by simp
qed

subsection \<open>Retries\<close>

text \<open>
  C2, as amended: a call of \<^verbatim>\<open>transfer\<close> runs the body at most three times. An
  attempt that returns, or that raises an exception outside \<^verbatim>\<open>transfer_exceptions\<close>,
  ends the call with its outcome. An attempt that raises one of the transfer exceptions
  (a connection error, a read timeout, a \<^verbatim>\<open>DataTransferError\<close>) is followed by
  another attempt, in the world the failed attempt left; the outcome of the third
  attempt is the outcome of the call, whatever it is.
\<close>

theorem transfer_makes_at_most_three_attempts:
  assumes "transfer_wrapped rt self f t w0 = (r1, evs1, w1)"
    and "transfer_wrapped rt self f t w1 = (r2, evs2, w2)"
    and "transfer_wrapped rt self f t w2 = (r3, evs3, w3)"
  shows "transfer rt self f t w0 =
           (case r1 of
              Inr x \<Rightarrow> (Inr x, evs1, w1)
            | Inl e1 \<Rightarrow>
                if \<not> is_transfer_exception e1 then (Inl e1, evs1, w1)
                else (case r2 of
                        Inr x \<Rightarrow> (Inr x, evs1 @ evs2, w2)
                      | Inl e2 \<Rightarrow>
                          if \<not> is_transfer_exception e2 then (Inl e2, evs1 @ evs2, w2)
                          else (r3, evs1 @ evs2 @ evs3, w3)))"
  unfolding transfer_def using assms by (rule retry_three_attempts)

text \<open>
  Three read timeouts in a row: the third one reaches the caller, after three runs of
  the body.
\<close>

theorem transfer_makes_at_most_three_attempts_witness:
  "transfer_wrapped (stages_runtime Faithful) (transfer_of False False 0) ''a'' ''b''
     (synced_store 3) =
     (Inl (ReadTimeout ''read timed out''),
      [Invoke ''a'' ''b'', GetHash Source ''a'' ''md5''], synced_store 2)
   \<and> transfer_wrapped (stages_runtime Faithful) (transfer_of False False 0) ''a'' ''b''
     (synced_store 2) =
     (Inl (ReadTimeout ''read timed out''),
      [Invoke ''a'' ''b'', GetHash Source ''a'' ''md5''], synced_store 1)
   \<and> transfer_wrapped (stages_runtime Faithful) (transfer_of False False 0) ''a'' ''b''
     (synced_store 1) =
     (Inl (ReadTimeout ''read timed out''),
      [Invoke ''a'' ''b'', GetHash Source ''a'' ''md5''], synced_store 0)
   \<and> transfer (stages_runtime Faithful) (transfer_of False False 0) ''a'' ''b''
     (synced_store 3) =
     (Inl (ReadTimeout ''read timed out''),
      [Invoke ''a'' ''b'', GetHash Source ''a'' ''md5'',
       Invoke ''a'' ''b'', GetHash Source ''a'' ''md5'',
       Invoke ''a'' ''b'', GetHash Source ''a'' ''md5''],
      synced_store 0)"
proof -
  let ?rt = "stages_runtime Faithful" and ?T = "transfer_of False False 0"
  let ?timeout = "Inl (ReadTimeout ''read timed out'') :: exn + unit"
  let ?evs = "[Invoke ''a'' ''b'', GetHash Source ''a'' ''md5'']"
  have a1: "transfer_wrapped ?rt ?T ''a'' ''b'' (synced_store 3) = (?timeout, ?evs, synced_store 2)"
    using attempt_times_out [of ?rt False False 0 "''a''" "''b''" 2]
    by (simp add: numeral_3_eq_3 numeral_2_eq_2)
  have a2: "transfer_wrapped ?rt ?T ''a'' ''b'' (synced_store 2) = (?timeout, ?evs, synced_store 1)"
    using attempt_times_out [of ?rt False False 0 "''a''" "''b''" 1]
    by (simp add: numeral_2_eq_2)
  have a3: "transfer_wrapped ?rt ?T ''a'' ''b'' (synced_store 1) = (?timeout, ?evs, synced_store 0)"
    using attempt_times_out [of ?rt False False 0 "''a''" "''b''" 0]
    by simp
  from transfer_makes_at_most_three_attempts [OF a1 a2 a3] a1 a2 a3
  show ?thesis by simp
qed

text \<open>
  C2 as stated fails: with three read timeouts pending, the failure reaches the caller
  after three runs of the body, not four, although a fourth run would have returned.
\<close>

theorem fourth_attempt_counterexample:
  "fst (transfer (stages_runtime Faithful) (transfer_of False False 0) ''a'' ''b''
          (synced_store 3)) = Inl (ReadTimeout ''read timed out'')
   \<and> invocations (fst (snd (transfer (stages_runtime Faithful) (transfer_of False False 0)
          ''a'' ''b'' (synced_store 3)))) = 3
   \<and> snd (snd (transfer (stages_runtime Faithful) (transfer_of False False 0)
          ''a'' ''b'' (synced_store 3))) = synced_store 0
   \<and> fst (transfer_wrapped (stages_runtime Faithful) (transfer_of False False 0) ''a'' ''b''
          (synced_store 0)) = Inr ()"
  using three_attempts_time_out [of "stages_runtime Faithful" False False 0 "''a''" "''b''" 0]
    attempt_on_synced_store [of "stages_runtime Faithful" False False 0 "''a''" "''b''"]
  by (simp add: numeral_3_eq_3 invocations_def)

text \<open>
  C3, as amended: when three attempts in a row raise, the first two a transfer
  exception, the exception that reaches the caller is the one the third attempt raised,
  of the same class and with the same message. It is a \<^verbatim>\<open>DataTransferError\<close> exactly
  when the third attempt raised a \<^verbatim>\<open>DataTransferError\<close>.
\<close>

theorem transfer_raises_exception_of_last_attempt:
  assumes "transfer_wrapped rt self f t w0 = (Inl e1, evs1, w1)" and "is_transfer_exception e1"
    and "transfer_wrapped rt self f t w1 = (Inl e2, evs2, w2)" and "is_transfer_exception e2"
    and "transfer_wrapped rt self f t w2 = (Inl e3, evs3, w3)"
  shows "fst (transfer rt self f t w0) = Inl e3
         \<and> ((\<exists>m. fst (transfer rt self f t w0) = Inl (DataTransferError m))
              = is_DataTransferError e3)"
proof -
  have "transfer rt self f t w0 = (Inl e3, evs1 @ evs2 @ evs3, w3)"
    unfolding transfer_def using assms by (rule retry_exhausted)
  then show ?thesis by (cases e3) simp_all
qed

theorem transfer_raises_exception_of_last_attempt_witness:
  "transfer_wrapped (stages_runtime Faithful) (transfer_of False False 0) ''a'' ''b''
     (synced_store 4) =
     (Inl (ReadTimeout ''read timed out''),
      [Invoke ''a'' ''b'', GetHash Source ''a'' ''md5''], synced_store 3)
   \<and> is_transfer_exception (ReadTimeout ''read timed out'')
   \<and> fst (transfer (stages_runtime Faithful) (transfer_of False False 0) ''a'' ''b''
            (synced_store 4)) = Inl (ReadTimeout ''read timed out'')
   \<and> \<not> (\<exists>m. fst (transfer (stages_runtime Faithful) (transfer_of False False 0) ''a'' ''b''
            (synced_store 4)) = Inl (DataTransferError m))"
proof -
  let ?rt = "stages_runtime Faithful" and ?T = "transfer_of False False 0"
  let ?timeout = "Inl (ReadTimeout ''read timed out'') :: exn + unit"
  let ?evs = "[Invoke ''a'' ''b'', GetHash Source ''a'' ''md5'']"
  have a1: "transfer_wrapped ?rt ?T ''a'' ''b'' (synced_store 4) = (?timeout, ?evs, synced_store 3)"
    using attempt_times_out [of ?rt False False 0 "''a''" "''b''" 3]
    by (simp add: eval_nat_numeral)
  have a2: "transfer_wrapped ?rt ?T ''a'' ''b'' (synced_store 3) = (?timeout, ?evs, synced_store 2)"
    using attempt_times_out [of ?rt False False 0 "''a''" "''b''" 2]
    by (simp add: eval_nat_numeral)
  have a3: "transfer_wrapped ?rt ?T ''a'' ''b'' (synced_store 2) = (?timeout, ?evs, synced_store 1)"
    using attempt_times_out [of ?rt False False 0 "''a''" "''b''" 1]
    by (simp add: eval_nat_numeral)
  have t: "is_transfer_exception (ReadTimeout ''read timed out'')" by simp
  from transfer_raises_exception_of_last_attempt [OF a1 t a2 t a3] a1
  show ?thesis by simp
qed

text \<open>
  C3 as stated fails: when every attempt ends in a read timeout, the caller gets the
  read timeout, which is not a \<^verbatim>\<open>DataTransferError\<close>.
\<close>

theorem read_timeout_counterexample:
  "fst (transfer (stages_runtime Faithful) (transfer_of False False 0) ''a'' ''b''
          (synced_store 5)) = Inl (ReadTimeout ''read timed out'')
   \<and> \<not> is_DataTransferError (ReadTimeout ''read timed out'')"
  using three_attempts_time_out [of "stages_runtime Faithful" False False 0 "''a''" "''b''" 2]
  by (simp add: eval_nat_numeral)

subsection \<open>Runs of the pipeline on the concrete connectors\<close>

lemma check_existing_fresh_store:
  "check_existing (transfer_of z d k) f t (fresh_store 0) =
     (Inr False, [GetHash Source f ''md5'', GetHash Destination t ''md5''], fresh_store 0)"
  by (simp add: check_existing_def stmt_defs fresh_store_def)

lemma hexdigest_of_fresh_store [simp]: "hexdigest_of (fresh_store n) algo = ''d41d''"
  by (simp add: hexdigest_of_def fresh_store_def)

text \<open>A faithful copy: the hashes agree with the digests and the metadata is stored.\<close>

lemma faithful_attempt:
  "transfer_wrapped (stages_runtime Faithful) (transfer_of z d k) f t (fresh_store 0) =
     (Inr (),
      [Invoke f t, GetHash Source f ''md5'', GetHash Destination t ''md5'',
       RunStages f t 8388608,
       GetHash Source f ''md5'', GetHash Destination t ''md5'', SetHashes t],
      (fresh_store 0)
        \<lparr>dest_hash := Some ''d41d'',
         dest_meta := computed_hashes (stages_runtime Faithful) (StreamHasher_init 8388608)
                        (hexdigest_of (fresh_store 0))\<rparr>)"
proof -
  let ?T = "transfer_of z d k" and ?rt = "stages_runtime Faithful"
  let ?w2 = "(fresh_store 0)\<lparr>dest_hash := Some ''d41d''\<rparr>"
  let ?hashes = "computed_hashes ?rt (StreamHasher_init 8388608) (hexdigest_of (fresh_store 0))"
  have dl: "supported_download_hash (from_connector ?T) = ''md5'' # []"
    and ul: "supported_upload_hash (to_connector ?T) = ''md5'' # []"
    by simp_all
  have st: "run_stages ?rt (StreamHasher_init 8388608) f t (fresh_store 0) =
              ((None, None, None, hexdigest_of (fresh_store 0)), ?w2)"
    by (simp add: fresh_store_def)
  have fh: "get_hash (from_connector ?T) f ''md5'' ?w2 =
              (Inr (Some (hexdigest_of (fresh_store 0) ''md5'')), ?w2)"
    by (simp add: fresh_store_def hexdigest_of_def)
  have th: "get_hash (to_connector ?T) t ''md5'' ?w2 =
              (Inr (Some (hexdigest_of (fresh_store 0) ''md5'')), ?w2)"
    by (simp add: fresh_store_def hexdigest_of_def)
  have sh: "set_hashes (to_connector ?T) t ?hashes ?w2 = (Inr (), ?w2\<lparr>dest_meta := ?hashes\<rparr>)"
    by simp
  show ?thesis
    using attempt_stored [OF dl ul check_existing_fresh_store st fh th sh] by simp
qed

text \<open>A copy that stores other bytes: the destination is deleted again.\<close>

lemma corrupting_attempt:
  "transfer_wrapped (stages_runtime Corrupting) (transfer_of z d k) f t (fresh_store 0) =
     (Inl (DataTransferError ''''),
      [Invoke f t, GetHash Source f ''md5'', GetHash Destination t ''md5'',
       RunStages f t 8388608,
       GetHash Source f ''md5'', GetHash Destination t ''md5'', Delete t],
      fresh_store 0)"
proof -
  let ?T = "transfer_of z d k" and ?rt = "stages_runtime Corrupting"
  let ?w2 = "(fresh_store 0)\<lparr>dest_hash := Some ''0bad''\<rparr>"
  have dl: "supported_download_hash (from_connector ?T) = ''md5'' # []"
    and ul: "supported_upload_hash (to_connector ?T) = ''md5'' # []"
    by simp_all
  have st: "run_stages ?rt (StreamHasher_init 8388608) f t (fresh_store 0) =
              ((None, None, None, hexdigest_of (fresh_store 0)), ?w2)"
    by simp
  have fh: "get_hash (from_connector ?T) f ''md5'' ?w2 = (Inr (Some ''d41d''), ?w2)"
    by (simp add: fresh_store_def)
  have th: "get_hash (to_connector ?T) t ''md5'' ?w2 = (Inr (Some ''0bad''), ?w2)"
    by (simp add: fresh_store_def)
  have mm: "(Some ''d41d'', Some ''0bad'') \<noteq>
              (Some (hexdigest_of (fresh_store 0) ''md5''),
               Some (hexdigest_of (fresh_store 0) ''md5''))"
    by simp
  have del: "delete (to_connector ?T) t ?w2 =
               (if d then Inl (OtherException ''delete'') else Inr (), fresh_store 0)"
    by (simp add: fresh_store_def)
  show ?thesis
    using attempt_mismatch [OF dl ul check_existing_fresh_store st fh th mm del] by simp
qed

lemma corrupting_run:
  "transfer (stages_runtime Corrupting) (transfer_of z d k) f t (fresh_store 0) =
     (Inl (DataTransferError ''''),
      [Invoke f t, GetHash Source f ''md5'', GetHash Destination t ''md5'',
       RunStages f t 8388608,
       GetHash Source f ''md5'', GetHash Destination t ''md5'', Delete t,
       Invoke f t, GetHash Source f ''md5'', GetHash Destination t ''md5'',
       RunStages f t 8388608,
       GetHash Source f ''md5'', GetHash Destination t ''md5'', Delete t,
       Invoke f t, GetHash Source f ''md5'', GetHash Destination t ''md5'',
       RunStages f t 8388608,
       GetHash Source f ''md5'', GetHash Destination t ''md5'', Delete t],
      fresh_store 0)"
proof -
  let ?body = "transfer_wrapped (stages_runtime Corrupting) (transfer_of z d k) f t"
  let ?evs = "[Invoke f t, GetHash Source f ''md5'', GetHash Destination t ''md5'',
               RunStages f t 8388608,
               GetHash Source f ''md5'', GetHash Destination t ''md5'', Delete t]"
  have a: "?body (fresh_store 0) = (Inl (DataTransferError ''''), ?evs, fresh_store 0)"
    by (rule corrupting_attempt)
  have t: "is_transfer_exception (DataTransferError '''')" by simp
  show ?thesis
    unfolding transfer_def
    using retry_exhausted [where wrapped = "?body", OF a t a t a] by simp
qed

subsection \<open>The chunk size of the hasher\<close>

text \<open>
  C1 fails on the code. The destination connector declares a multipart chunk size of
  5 MiB; the hasher that runs in the pipeline was built before that value is read and
  has the default chunk size of 8 MiB (8388608 bytes), and 8388608 is what is stored
  under \<^verbatim>\<open>_upload_chunk_size\<close>.
\<close>

theorem hasher_keeps_default_chunk_size:
  "multipart_chunksize (to_connector (transfer_of False False 0)) = Some 5242880
   \<and> fst (transfer (stages_runtime Faithful) (transfer_of False False 0) ''a'' ''b''
            (fresh_store 0)) = Inr ()
   \<and> fst (snd (transfer (stages_runtime Faithful) (transfer_of False False 0) ''a'' ''b''
            (fresh_store 0))) =
       [Invoke ''a'' ''b'', GetHash Source ''a'' ''md5'', GetHash Destination ''b'' ''md5'',
        RunStages ''a'' ''b'' 8388608,
        GetHash Source ''a'' ''md5'', GetHash Destination ''b'' ''md5'', SetHashes ''b'']
   \<and> dest_meta (snd (snd (transfer (stages_runtime Faithful) (transfer_of False False 0)
            ''a'' ''b'' (fresh_store 0)))) ''_upload_chunk_size'' = Some ''8388608''"
proof -
  have str: "str_nat 8388608 = ''8388608''"
    by (simp add: str_nat.simps digit_char_def)
  have run: "transfer (stages_runtime Faithful) (transfer_of False False 0) ''a'' ''b''
               (fresh_store 0) =
     (Inr (),
      [Invoke ''a'' ''b'', GetHash Source ''a'' ''md5'', GetHash Destination ''b'' ''md5'',
       RunStages ''a'' ''b'' 8388608,
       GetHash Source ''a'' ''md5'', GetHash Destination ''b'' ''md5'', SetHashes ''b''],
      (fresh_store 0)
        \<lparr>dest_hash := Some ''d41d'',
         dest_meta := computed_hashes (stages_runtime Faithful) (StreamHasher_init 8388608)
                        (hexdigest_of (fresh_store 0))\<rparr>)"
    unfolding transfer_def
    by (rule retry_returns
          [where wrapped = "transfer_wrapped (stages_runtime Faithful)
                              (transfer_of False False 0) ''a'' ''b''",
           OF faithful_attempt])
  have meta: "computed_hashes (stages_runtime Faithful) (StreamHasher_init 8388608)
                (hexdigest_of (fresh_store 0)) ''_upload_chunk_size'' = Some ''8388608''"
    by (simp add: computed_hashes_def StreamHasher_init_def str)
  show ?thesis
    by (simp add: run meta)
qed

subsection \<open>The attempts after one that raised a transfer exception\<close>

text \<open>
  After a first attempt that raised a transfer exception the call yields the outcome
  of the second attempt, unless that one raised a transfer exception too: then it
  yields the outcome of the third attempt, whatever it is.
\<close>

lemma retry_after_transfer_exception:
  assumes "wrapped w = (Inl e, evs_a, w_a)" and "is_transfer_exception e"
    and "wrapped w_a = (r_b, evs_b, w_b)"
    and "wrapped w_b = (r_c, evs_c, w_c)"
  shows "retry_on_transfer_error wrapped w =
           (case r_b of
              Inr x \<Rightarrow> (Inr x, evs_a @ evs_b, w_b)
            | Inl e_b \<Rightarrow>
                if \<not> is_transfer_exception e_b then (Inl e_b, evs_a @ evs_b, w_b)
                else (r_c, evs_a @ evs_b @ evs_c, w_c))"
  using retry_three_attempts [OF assms(1,3,4)] assms(2) by simp

lemma flaky_runtime_fields [simp]:
  "run_stages (stages_runtime FlakyCopy) hasher f t w =
     (if 0 < bad_runs w
      then ((None, None, None, hexdigest_of w),
            w\<lparr>dest_hash := Some ''0bad'', bad_runs := bad_runs w - 1\<rparr>)
      else ((None, None, None, hexdigest_of w), w\<lparr>dest_hash := source_hash w\<rparr>))"
  "run_stages (stages_runtime FlakyDownload) hasher f t w =
     (if 0 < bad_runs w
      then ((Some (RequestsConnectionError ''connection reset''), None, None, hexdigest_of w),
            w\<lparr>dest_hash := Some ''part'', bad_runs := bad_runs w - 1\<rparr>)
      else ((None, None, None, hexdigest_of w), w\<lparr>dest_hash := source_hash w\<rparr>))"
  by (simp_all add: stages_runtime_def)

lemma check_existing_flaky_store:
  "check_existing (transfer_of z d k) f t (flaky_store n) =
     (Inr False, [GetHash Source f ''md5'', GetHash Destination t ''md5''], flaky_store n)"
  by (simp add: check_existing_def stmt_defs flaky_store_def fresh_store_def)

lemma hexdigest_of_flaky_store [simp]: "hexdigest_of (flaky_store n) algo = ''d41d''"
  by (simp add: hexdigest_of_def flaky_store_def fresh_store_def)

text \<open>A copy by a runtime that copies faithfully on the fresh store.\<close>

lemma copying_attempt:
  assumes "run_stages rt (StreamHasher_init 8388608) f t (fresh_store 0) =
             ((None, None, None, hexdigest_of (fresh_store 0)),
              (fresh_store 0)\<lparr>dest_hash := Some ''d41d''\<rparr>)"
  shows "transfer_wrapped rt (transfer_of z d 0) f t (fresh_store 0) =
     (Inr (),
      [Invoke f t, GetHash Source f ''md5'', GetHash Destination t ''md5'',
       RunStages f t 8388608,
       GetHash Source f ''md5'', GetHash Destination t ''md5'', SetHashes t],
      (fresh_store 0)
        \<lparr>dest_hash := Some ''d41d'',
         dest_meta := computed_hashes rt (StreamHasher_init 8388608)
                        (hexdigest_of (fresh_store 0))\<rparr>)"
proof -
  let ?T = "transfer_of z d 0"
  let ?w2 = "(fresh_store 0)\<lparr>dest_hash := Some ''d41d''\<rparr>"
  let ?hashes = "computed_hashes rt (StreamHasher_init 8388608) (hexdigest_of (fresh_store 0))"
  have dl: "supported_download_hash (from_connector ?T) = ''md5'' # []"
    and ul: "supported_upload_hash (to_connector ?T) = ''md5'' # []"
    by simp_all
  have fh: "get_hash (from_connector ?T) f ''md5'' ?w2 =
              (Inr (Some (hexdigest_of (fresh_store 0) ''md5'')), ?w2)"
    by (simp add: fresh_store_def hexdigest_of_def)
  have th: "get_hash (to_connector ?T) t ''md5'' ?w2 =
              (Inr (Some (hexdigest_of (fresh_store 0) ''md5'')), ?w2)"
    by (simp add: fresh_store_def hexdigest_of_def)
  have sh: "set_hashes (to_connector ?T) t ?hashes ?w2 = (Inr (), ?w2\<lparr>dest_meta := ?hashes\<rparr>)"
    by simp
  show ?thesis
    using attempt_stored [OF dl ul check_existing_fresh_store assms fh th sh] by simp
qed

text \<open>The first attempt with a copy that goes wrong once: the destination is deleted.\<close>

lemma flaky_copy_first_attempt:
  "transfer_wrapped (stages_runtime FlakyCopy) (transfer_of z d 0) f t (flaky_store 1) =
     (Inl (DataTransferError ''''),
      [Invoke f t, GetHash Source f ''md5'', GetHash Destination t ''md5'',
       RunStages f t 8388608,
       GetHash Source f ''md5'', GetHash Destination t ''md5'', Delete t],
      fresh_store 0)"
proof -
  let ?T = "transfer_of z d 0" and ?rt = "stages_runtime FlakyCopy"
  let ?w2 = "(fresh_store 0)\<lparr>dest_hash := Some ''0bad''\<rparr>"
  have dl: "supported_download_hash (from_connector ?T) = ''md5'' # []"
    and ul: "supported_upload_hash (to_connector ?T) = ''md5'' # []"
    by simp_all
  have st: "run_stages ?rt (StreamHasher_init 8388608) f t (flaky_store 1) =
              ((None, None, None, hexdigest_of (flaky_store 1)), ?w2)"
    by (simp add: flaky_store_def fresh_store_def)
  have fh: "get_hash (from_connector ?T) f ''md5'' ?w2 = (Inr (Some ''d41d''), ?w2)"
    by (simp add: fresh_store_def)
  have th: "get_hash (to_connector ?T) t ''md5'' ?w2 = (Inr (Some ''0bad''), ?w2)"
    by (simp add: fresh_store_def)
  have mm: "(Some ''d41d'', Some ''0bad'') \<noteq>
              (Some (hexdigest_of (flaky_store 1) ''md5''),
               Some (hexdigest_of (flaky_store 1) ''md5''))"
    by simp
  have del: "delete (to_connector ?T) t ?w2 =
               (if d then Inl (OtherException ''delete'') else Inr (), fresh_store 0)"
    by (simp add: fresh_store_def)
  show ?thesis
    using attempt_mismatch [OF dl ul check_existing_flaky_store st fh th mm del] by simp
qed

text \<open>The first attempt with a download that fails once: the destination is deleted.\<close>

lemma flaky_download_first_attempt:
  "transfer_wrapped (stages_runtime FlakyDownload) (transfer_of z d 0) f t (flaky_store 1) =
     (Inl (DataTransferError ''connection reset''),
      [Invoke f t, GetHash Source f ''md5'', GetHash Destination t ''md5'',
       RunStages f t 8388608, Delete t],
      fresh_store 0)"
proof -
  let ?T = "transfer_of z d 0" and ?rt = "stages_runtime FlakyDownload"
  let ?w2 = "(fresh_store 0)\<lparr>dest_hash := Some ''part''\<rparr>"
  let ?download = "Some (RequestsConnectionError ''connection reset'')"
  have dl: "supported_download_hash (from_connector ?T) = ''md5'' # []"
    and ul: "supported_upload_hash (to_connector ?T) = ''md5'' # []"
    by simp_all
  have st: "run_stages ?rt (StreamHasher_init 8388608) f t (flaky_store 1) =
              ((?download, None, None, hexdigest_of (flaky_store 1)), ?w2)"
    by (simp add: flaky_store_def fresh_store_def)
  have ex: "?download \<noteq> None \<or> (None :: exn option) \<noteq> None \<or> (None :: exn option) \<noteq> None"
    by simp
  have del: "delete (to_connector ?T) t ?w2 =
               (if d then Inl (OtherException ''delete'') else Inr (), fresh_store 0)"
    by (simp add: fresh_store_def)
  show ?thesis
    using attempt_stage_failure [OF dl ul check_existing_flaky_store st ex del]
    by (simp add: List.map_filter_def)
qed

lemma flaky_runtime_on_fresh_store:
  "run_stages (stages_runtime FlakyCopy) (StreamHasher_init 8388608) f t (fresh_store 0) =
     ((None, None, None, hexdigest_of (fresh_store 0)),
      (fresh_store 0)\<lparr>dest_hash := Some ''d41d''\<rparr>)"
  "run_stages (stages_runtime FlakyDownload) (StreamHasher_init 8388608) f t (fresh_store 0) =
     ((None, None, None, hexdigest_of (fresh_store 0)),
      (fresh_store 0)\<lparr>dest_hash := Some ''d41d''\<rparr>)"
  by (simp_all add: fresh_store_def)

text \<open>A run whose download and upload stages raise, with a delete that raises too.\<close>

lemma failing_attempt:
  "transfer_wrapped (stages_runtime Failing) (transfer_of z d 0) f t (fresh_store 0) =
     (Inl (DataTransferError
             (''connection reset'' @ [CHR 0x0A, CHR 0x0A] @ ''stream closed'')),
      [Invoke f t, GetHash Source f ''md5'', GetHash Destination t ''md5'',
       RunStages f t 8388608, Delete t],
      fresh_store 0)"
proof -
  let ?T = "transfer_of z d 0" and ?rt = "stages_runtime Failing"
  let ?w2 = "(fresh_store 0)\<lparr>dest_hash := Some ''part''\<rparr>"
  let ?download = "Some (RequestsConnectionError ''connection reset'')"
  let ?upload = "Some (OtherException ''stream closed'')"
  have dl: "supported_download_hash (from_connector ?T) = ''md5'' # []"
    and ul: "supported_upload_hash (to_connector ?T) = ''md5'' # []"
    by simp_all
  have st: "run_stages ?rt (StreamHasher_init 8388608) f t (fresh_store 0) =
              ((?download, None, ?upload, hexdigest_of (fresh_store 0)), ?w2)"
    by simp
  have ex: "?download \<noteq> None \<or> (None :: exn option) \<noteq> None \<or> ?upload \<noteq> None"
    by simp
  have del: "delete (to_connector ?T) t ?w2 =
               (if d then Inl (OtherException ''delete'') else Inr (), fresh_store 0)"
    by (simp add: fresh_store_def)
  show ?thesis
    using attempt_stage_failure [OF dl ul check_existing_fresh_store st ex del]
    by (simp add: List.map_filter_def)
qed

text \<open>The destination whose \<^verbatim>\<open>set_hashes\<close> raises: the copy is faithful, the call fails.\<close>

lemma unwritable_fields [simp]:
  "supported_download_hash (from_connector unwritable_transfer) = [''md5'']"
  "supported_upload_hash (to_connector unwritable_transfer) = [''md5'']"
  "get_hash (from_connector unwritable_transfer) url algo w =
     (if 0 < timeouts w
      then (Inl (ReadTimeout ''read timed out''), w\<lparr>timeouts := timeouts w - 1\<rparr>)
      else (Inr (source_hash w), w))"
  "get_hash (to_connector unwritable_transfer) url algo w = (Inr (dest_hash w), w)"
  "set_hashes (to_connector unwritable_transfer) url hashes w =
     (Inl (OtherException ''set_hashes''), w)"
  "delete (to_connector unwritable_transfer) url w = (Inr (), w\<lparr>dest_hash := None\<rparr>)"
  "common_hash unwritable_transfer = [''md5'']"
  by (simp_all add: unwritable_transfer_def common_hash_def)

lemma unwritable_attempt:
  "transfer_wrapped (stages_runtime Faithful) unwritable_transfer f t (fresh_store 0) =
     (Inl (OtherException ''set_hashes''),
      [Invoke f t, GetHash Source f ''md5'', GetHash Destination t ''md5'',
       RunStages f t 8388608,
       GetHash Source f ''md5'', GetHash Destination t ''md5'', SetHashes t],
      (fresh_store 0)\<lparr>dest_hash := Some ''d41d''\<rparr>)"
proof -
  let ?T = "unwritable_transfer" and ?rt = "stages_runtime Faithful"
  let ?w2 = "(fresh_store 0)\<lparr>dest_hash := Some ''d41d''\<rparr>"
  let ?hashes = "computed_hashes ?rt (StreamHasher_init 8388608) (hexdigest_of (fresh_store 0))"
  have dl: "supported_download_hash (from_connector ?T) = ''md5'' # []"
    and ul: "supported_upload_hash (to_connector ?T) = ''md5'' # []"
    by simp_all
  have ce: "check_existing ?T f t (fresh_store 0) =
              (Inr False, [GetHash Source f ''md5'', GetHash Destination t ''md5''],
               fresh_store 0)"
    by (simp add: check_existing_def stmt_defs fresh_store_def)
  have st: "run_stages ?rt (StreamHasher_init 8388608) f t (fresh_store 0) =
              ((None, None, None, hexdigest_of (fresh_store 0)), ?w2)"
    by (simp add: fresh_store_def)
  have fh: "get_hash (from_connector ?T) f ''md5'' ?w2 =
              (Inr (Some (hexdigest_of (fresh_store 0) ''md5'')), ?w2)"
    by (simp add: fresh_store_def hexdigest_of_def)
  have th: "get_hash (to_connector ?T) t ''md5'' ?w2 =
              (Inr (Some (hexdigest_of (fresh_store 0) ''md5'')), ?w2)"
    by (simp add: fresh_store_def hexdigest_of_def)
  have sh: "set_hashes (to_connector ?T) t ?hashes ?w2 =
              (Inl (OtherException ''set_hashes''), ?w2)"
    by simp
  show ?thesis
    using attempt_stored [OF dl ul ce st fh th sh] by simp
qed

subsection \<open>Verification after the pipeline\<close>

text \<open>
  C4, as amended: a hash mismatch found after the pipeline deletes the destination
  and raises a \<^verbatim>\<open>DataTransferError\<close>, which is one of the exceptions the decorator
  retries: the body of \<^verbatim>\<open>transfer\<close> is run again, in the world the failed attempt
  left. The call yields the outcome of this second attempt when it returns or raises
  an exception outside \<^verbatim>\<open>transfer_exceptions\<close>, and otherwise the outcome of the
  third attempt, whatever it is. There are three attempts in all, and the mismatch
  reaches the caller only as the outcome of the last of them.
\<close>

theorem verification_failure_is_retried:
  assumes "supported_download_hash (from_connector self) = dl # dls"
    and "supported_upload_hash (to_connector self) = ul # uls"
    and "check_existing self f t w = (Inr False, evs, w1)"
    and "run_stages rt (StreamHasher_init 8388608) f t w1 = ((None, None, None, hexdigest), w2)"
    and "get_hash (from_connector self) f dl w2 = (Inr from_hash, w3)"
    and "get_hash (to_connector self) t ul w3 = (Inr to_hash, w4)"
    and "(from_hash, to_hash) \<noteq> (Some (hexdigest dl), Some (hexdigest ul))"
    and "delete (to_connector self) t w4 = (deleted, w_a)"
    and "transfer_wrapped rt self f t w_a = (r_b, evs_b, w_b)"
    and "transfer_wrapped rt self f t w_b = (r_c, evs_c, w_c)"
  shows "transfer rt self f t w =
           (case r_b of
              Inr x \<Rightarrow>
                (Inr x,
                 (Invoke f t # evs @ [RunStages f t 8388608, GetHash Source f dl,
                                      GetHash Destination t ul, Delete t]) @ evs_b, w_b)
            | Inl e_b \<Rightarrow>
                if \<not> is_transfer_exception e_b
                then (Inl e_b,
                      (Invoke f t # evs @ [RunStages f t 8388608, GetHash Source f dl,
                                           GetHash Destination t ul, Delete t]) @ evs_b, w_b)
                else (r_c,
                      (Invoke f t # evs @ [RunStages f t 8388608, GetHash Source f dl,
                                           GetHash Destination t ul, Delete t]) @ evs_b @ evs_c,
                      w_c))
         \<and> (\<exists>rest. evs_b = Invoke f t # rest)"
proof -
  let ?first = "Invoke f t # evs @ [RunStages f t 8388608, GetHash Source f dl,
                                    GetHash Destination t ul, Delete t]"
  have a: "transfer_wrapped rt self f t w = (Inl (DataTransferError ''''), ?first, w_a)"
    using assms(1-8) by (rule attempt_mismatch)
  have t: "is_transfer_exception (DataTransferError '''')" by simp
  have outcome: "transfer rt self f t w =
           (case r_b of
              Inr x \<Rightarrow> (Inr x, ?first @ evs_b, w_b)
            | Inl e_b \<Rightarrow>
                if \<not> is_transfer_exception e_b then (Inl e_b, ?first @ evs_b, w_b)
                else (r_c, ?first @ evs_b @ evs_c, w_c))"
    unfolding transfer_def
    by (rule retry_after_transfer_exception
          [where wrapped = "transfer_wrapped rt self f t", OF a t assms(9) assms(10)])
  from attempt_starts_with_Invoke [of rt self f t w_a] assms(9)
  have "\<exists>rest. evs_b = Invoke f t # rest" by auto
  with outcome show ?thesis by simp
qed

text \<open>
  Three copies that all store other bytes: the body runs three times, and the error of
  the third run reaches the caller.
\<close>

theorem verification_failure_is_retried_witness:
  "transfer_wrapped (stages_runtime Corrupting) (transfer_of False False 0) ''a'' ''b''
     (fresh_store 0) =
     (Inl (DataTransferError ''''),
      [Invoke ''a'' ''b'', GetHash Source ''a'' ''md5'', GetHash Destination ''b'' ''md5'',
       RunStages ''a'' ''b'' 8388608,
       GetHash Source ''a'' ''md5'', GetHash Destination ''b'' ''md5'', Delete ''b''],
      fresh_store 0)
   \<and> transfer (stages_runtime Corrupting) (transfer_of False False 0) ''a'' ''b''
       (fresh_store 0) =
     (Inl (DataTransferError ''''),
      [Invoke ''a'' ''b'', GetHash Source ''a'' ''md5'', GetHash Destination ''b'' ''md5'',
       RunStages ''a'' ''b'' 8388608,
       GetHash Source ''a'' ''md5'', GetHash Destination ''b'' ''md5'', Delete ''b'',
       Invoke ''a'' ''b'', GetHash Source ''a'' ''md5'', GetHash Destination ''b'' ''md5'',
       RunStages ''a'' ''b'' 8388608,
       GetHash Source ''a'' ''md5'', GetHash Destination ''b'' ''md5'', Delete ''b'',
       Invoke ''a'' ''b'', GetHash Source ''a'' ''md5'', GetHash Destination ''b'' ''md5'',
       RunStages ''a'' ''b'' 8388608,
       GetHash Source ''a'' ''md5'', GetHash Destination ''b'' ''md5'', Delete ''b''],
      fresh_store 0)"
proof -
  let ?T = "transfer_of False False 0" and ?rt = "stages_runtime Corrupting"
  let ?w2 = "(fresh_store 0)\<lparr>dest_hash := Some ''0bad''\<rparr>"
  have dl: "supported_download_hash (from_connector ?T) = ''md5'' # []"
    and ul: "supported_upload_hash (to_connector ?T) = ''md5'' # []"
    by simp_all
  have ce: "check_existing ?T ''a'' ''b'' (fresh_store 0) =
              (Inr False, [GetHash Source ''a'' ''md5'', GetHash Destination ''b'' ''md5''],
               fresh_store 0)"
    by (rule check_existing_fresh_store)
  have st: "run_stages ?rt (StreamHasher_init 8388608) ''a'' ''b'' (fresh_store 0) =
              ((None, None, None, hexdigest_of (fresh_store 0)), ?w2)"
    by simp
  have fh: "get_hash (from_connector ?T) ''a'' ''md5'' ?w2 = (Inr (Some ''d41d''), ?w2)"
    by (simp add: fresh_store_def)
  have th: "get_hash (to_connector ?T) ''b'' ''md5'' ?w2 = (Inr (Some ''0bad''), ?w2)"
    by (simp add: fresh_store_def)
  have mm: "(Some ''d41d'', Some ''0bad'') \<noteq>
              (Some (hexdigest_of (fresh_store 0) ''md5''),
               Some (hexdigest_of (fresh_store 0) ''md5''))"
    by simp
  have del: "delete (to_connector ?T) ''b'' ?w2 = (Inr (), fresh_store 0)"
    by (simp add: fresh_store_def)
  have again: "transfer_wrapped ?rt ?T ''a'' ''b'' (fresh_store 0) =
     (Inl (DataTransferError ''''),
      [Invoke ''a'' ''b'', GetHash Source ''a'' ''md5'', GetHash Destination ''b'' ''md5'',
       RunStages ''a'' ''b'' 8388608,
       GetHash Source ''a'' ''md5'', GetHash Destination ''b'' ''md5'', Delete ''b''],
      fresh_store 0)"
    by (rule corrupting_attempt)
  from verification_failure_is_retried [OF dl ul ce st fh th mm del again again] again
  show ?thesis by simp
qed

text \<open>
  C4 as stated fails: when every copy turns out corrupt, the body of \<^verbatim>\<open>transfer\<close>
  runs three times, each time through the pipeline and the check, before the error
  reaches the caller.
\<close>

theorem hash_mismatch_counterexample:
  "fst (transfer (stages_runtime Corrupting) (transfer_of False False 0) ''a'' ''b''
          (fresh_store 0)) = Inl (DataTransferError '''')
   \<and> invocations (fst (snd (transfer (stages_runtime Corrupting) (transfer_of False False 0)
          ''a'' ''b'' (fresh_store 0)))) = 3
   \<and> length (filter is_RunStages (fst (snd (transfer (stages_runtime Corrupting)
          (transfer_of False False 0) ''a'' ''b'' (fresh_store 0))))) = 3"
  by (simp add: corrupting_run invocations_def)

text \<open>
  C6, as amended. After a run of the pipeline in which no stage raised, an attempt
  asks the source for the stored hash of its native download algorithm and the
  destination for the stored hash of its native upload algorithm (element 0 of the
  respective list). With both calls returning:
  \<^item> when each stored hash equals the hasher's digest for the same algorithm, nothing
    is deleted, the digests are stored with \<^verbatim>\<open>set_hashes\<close>, and the attempt ends as
    that call does: it returns if and only if \<^verbatim>\<open>set_hashes\<close> returns;
  \<^item> on a mismatch the destination is deleted, whatever the delete call yields, and
    the attempt raises a \<^verbatim>\<open>DataTransferError\<close>;
  \<^item> the call of \<^verbatim>\<open>transfer\<close> ends with the outcome of this attempt when the
    attempt returns or raises an exception outside \<^verbatim>\<open>transfer_exceptions\<close>. When it
    raises a transfer exception, as it always does on a mismatch, the body is run
    again, and the call yields the outcome of the second attempt if that returns or
    raises an exception outside \<^verbatim>\<open>transfer_exceptions\<close>, and the outcome of the third
    attempt otherwise.
\<close>

theorem verification_outcome:
  assumes "supported_download_hash (from_connector self) = dl # dls"
    and "supported_upload_hash (to_connector self) = ul # uls"
    and "check_existing self f t w = (Inr False, evs, w1)"
    and "run_stages rt (StreamHasher_init 8388608) f t w1 = ((None, None, None, hexdigest), w2)"
    and "get_hash (from_connector self) f dl w2 = (Inr from_hash, w3)"
    and "get_hash (to_connector self) t ul w3 = (Inr to_hash, w4)"
    and "set_hashes (to_connector self) t
           (computed_hashes rt (StreamHasher_init 8388608) hexdigest) w4 = (stored, w5)"
    and "delete (to_connector self) t w4 = (deleted, w6)"
    and "(r_a, evs_a, w_a) =
           (if from_hash = Some (hexdigest dl) \<and> to_hash = Some (hexdigest ul)
            then (stored,
                  Invoke f t # evs @ [RunStages f t 8388608, GetHash Source f dl,
                                      GetHash Destination t ul, SetHashes t], w5)
            else (Inl (DataTransferError ''''),
                  Invoke f t # evs @ [RunStages f t 8388608, GetHash Source f dl,
                                      GetHash Destination t ul, Delete t], w6))"
    and "transfer_wrapped rt self f t w_a = (r_b, evs_b, w_b)"
    and "transfer_wrapped rt self f t w_b = (r_c, evs_c, w_c)"
  shows "transfer_wrapped rt self f t w = (r_a, evs_a, w_a)
         \<and> (r_a = Inr ())
             = (from_hash = Some (hexdigest dl) \<and> to_hash = Some (hexdigest ul)
                  \<and> stored = Inr ())
         \<and> transfer rt self f t w =
             (case r_a of
                Inr x \<Rightarrow> (Inr x, evs_a, w_a)
              | Inl e_a \<Rightarrow>
                  if \<not> is_transfer_exception e_a then (Inl e_a, evs_a, w_a)
                  else (case r_b of
                          Inr x \<Rightarrow> (Inr x, evs_a @ evs_b, w_b)
                        | Inl e_b \<Rightarrow>
                            if \<not> is_transfer_exception e_b then (Inl e_b, evs_a @ evs_b, w_b)
                            else (r_c, evs_a @ evs_b @ evs_c, w_c)))"
proof -
  have a: "transfer_wrapped rt self f t w = (r_a, evs_a, w_a)"
  proof (cases "from_hash = Some (hexdigest dl) \<and> to_hash = Some (hexdigest ul)")
    case True
    with assms(5,6)
    have "get_hash (from_connector self) f dl w2 = (Inr (Some (hexdigest dl)), w3)"
      and "get_hash (to_connector self) t ul w3 = (Inr (Some (hexdigest ul)), w4)"
      by simp_all
    from attempt_stored [OF assms(1-4) this assms(7)] True assms(9)
    show ?thesis by simp
  next
    case False
    then have "(from_hash, to_hash) \<noteq> (Some (hexdigest dl), Some (hexdigest ul))"
      by simp
    from attempt_mismatch [OF assms(1-6) this assms(8)] False assms(9)
    show ?thesis by simp
  qed
  have b: "(r_a = Inr ())
             = (from_hash = Some (hexdigest dl) \<and> to_hash = Some (hexdigest ul)
                  \<and> stored = Inr ())"
    using assms(9) by (auto split: if_splits)
  have c: "transfer rt self f t w =
             (case r_a of
                Inr x \<Rightarrow> (Inr x, evs_a, w_a)
              | Inl e_a \<Rightarrow>
                  if \<not> is_transfer_exception e_a then (Inl e_a, evs_a, w_a)
                  else (case r_b of
                          Inr x \<Rightarrow> (Inr x, evs_a @ evs_b, w_b)
                        | Inl e_b \<Rightarrow>
                            if \<not> is_transfer_exception e_b then (Inl e_b, evs_a @ evs_b, w_b)
                            else (r_c, evs_a @ evs_b @ evs_c, w_c)))"
    unfolding transfer_def
    by (rule retry_three_attempts
          [where wrapped = "transfer_wrapped rt self f t", OF a assms(10) assms(11)])
  from a b c show ?thesis by simp
qed

text \<open>
  A copy that stores other bytes once and the right bytes on the second attempt: the
  first attempt deletes the destination and raises, the call returns. And a faithful
  copy to a destination whose \<^verbatim>\<open>set_hashes\<close> raises: the stored hashes equal the
  digests, the attempt ends as \<^verbatim>\<open>set_hashes\<close> does, and the call raises that
  exception at once.
\<close>

theorem verification_outcome_witness:
  "transfer_wrapped (stages_runtime FlakyCopy) (transfer_of False False 0) ''a'' ''b''
     (flaky_store 1) =
     (Inl (DataTransferError ''''),
      [Invoke ''a'' ''b'', GetHash Source ''a'' ''md5'', GetHash Destination ''b'' ''md5'',
       RunStages ''a'' ''b'' 8388608,
       GetHash Source ''a'' ''md5'', GetHash Destination ''b'' ''md5'', Delete ''b''],
      fresh_store 0)
   \<and> transfer (stages_runtime FlakyCopy) (transfer_of False False 0) ''a'' ''b''
     (flaky_store 1) =
     (Inr (),
      [Invoke ''a'' ''b'', GetHash Source ''a'' ''md5'', GetHash Destination ''b'' ''md5'',
       RunStages ''a'' ''b'' 8388608,
       GetHash Source ''a'' ''md5'', GetHash Destination ''b'' ''md5'', Delete ''b'',
       Invoke ''a'' ''b'', GetHash Source ''a'' ''md5'', GetHash Destination ''b'' ''md5'',
       RunStages ''a'' ''b'' 8388608,
       GetHash Source ''a'' ''md5'', GetHash Destination ''b'' ''md5'', SetHashes ''b''],
      (fresh_store 0)
        \<lparr>dest_hash := Some ''d41d'',
         dest_meta := computed_hashes (stages_runtime FlakyCopy) (StreamHasher_init 8388608)
                        (hexdigest_of (fresh_store 0))\<rparr>)
   \<and> transfer (stages_runtime Faithful) unwritable_transfer ''a'' ''b'' (fresh_store 0) =
     (Inl (OtherException ''set_hashes''),
      [Invoke ''a'' ''b'', GetHash Source ''a'' ''md5'', GetHash Destination ''b'' ''md5'',
       RunStages ''a'' ''b'' 8388608,
       GetHash Source ''a'' ''md5'', GetHash Destination ''b'' ''md5'', SetHashes ''b''],
      (fresh_store 0)\<lparr>dest_hash := Some ''d41d''\<rparr>)"
proof -
  let ?T = "transfer_of False False 0" and ?rt = "stages_runtime FlakyCopy"
  let ?w2 = "(fresh_store 0)\<lparr>dest_hash := Some ''0bad''\<rparr>"
  let ?hashes = "computed_hashes ?rt (StreamHasher_init 8388608) (hexdigest_of (flaky_store 1))"
  let ?bad = "[Invoke ''a'' ''b'', GetHash Source ''a'' ''md5'', GetHash Destination ''b'' ''md5'',
       RunStages ''a'' ''b'' 8388608,
       GetHash Source ''a'' ''md5'', GetHash Destination ''b'' ''md5'', Delete ''b'']"
  let ?good = "[Invoke ''a'' ''b'', GetHash Source ''a'' ''md5'', GetHash Destination ''b'' ''md5'',
       RunStages ''a'' ''b'' 8388608,
       GetHash Source ''a'' ''md5'', GetHash Destination ''b'' ''md5'', SetHashes ''b'']"
  let ?done = "(fresh_store 0)
        \<lparr>dest_hash := Some ''d41d'',
         dest_meta := computed_hashes ?rt (StreamHasher_init 8388608)
                        (hexdigest_of (fresh_store 0))\<rparr>"
  have dl: "supported_download_hash (from_connector ?T) = ''md5'' # []"
    and ul: "supported_upload_hash (to_connector ?T) = ''md5'' # []"
    by simp_all
  have ce: "check_existing ?T ''a'' ''b'' (flaky_store 1) =
              (Inr False, [GetHash Source ''a'' ''md5'', GetHash Destination ''b'' ''md5''],
               flaky_store 1)"
    by (rule check_existing_flaky_store)
  have st: "run_stages ?rt (StreamHasher_init 8388608) ''a'' ''b'' (flaky_store 1) =
              ((None, None, None, hexdigest_of (flaky_store 1)), ?w2)"
    by (simp add: flaky_store_def fresh_store_def)
  have fh: "get_hash (from_connector ?T) ''a'' ''md5'' ?w2 = (Inr (Some ''d41d''), ?w2)"
    by (simp add: fresh_store_def)
  have th: "get_hash (to_connector ?T) ''b'' ''md5'' ?w2 = (Inr (Some ''0bad''), ?w2)"
    by (simp add: fresh_store_def)
  have sh: "set_hashes (to_connector ?T) ''b'' ?hashes ?w2 = (Inr (), ?w2\<lparr>dest_meta := ?hashes\<rparr>)"
    by simp
  have del: "delete (to_connector ?T) ''b'' ?w2 = (Inr (), fresh_store 0)"
    by (simp add: fresh_store_def)
  have first: "(Inl (DataTransferError ''''), ?bad, fresh_store 0) =
           (if Some ''d41d'' = Some (hexdigest_of (flaky_store 1) ''md5'')
                 \<and> Some ''0bad'' = Some (hexdigest_of (flaky_store 1) ''md5'')
            then (Inr (),
                  Invoke ''a'' ''b'' #
                    [GetHash Source ''a'' ''md5'', GetHash Destination ''b'' ''md5''] @
                    [RunStages ''a'' ''b'' 8388608, GetHash Source ''a'' ''md5'',
                     GetHash Destination ''b'' ''md5'', SetHashes ''b''],
                  ?w2\<lparr>dest_meta := ?hashes\<rparr>)
            else (Inl (DataTransferError ''''),
                  Invoke ''a'' ''b'' #
                    [GetHash Source ''a'' ''md5'', GetHash Destination ''b'' ''md5''] @
                    [RunStages ''a'' ''b'' 8388608, GetHash Source ''a'' ''md5'',
                     GetHash Destination ''b'' ''md5'', Delete ''b''],
                  fresh_store 0))"
    by simp
  have second: "transfer_wrapped ?rt ?T ''a'' ''b'' (fresh_store 0) = (Inr (), ?good, ?done)"
    by (rule copying_attempt [OF flaky_runtime_on_fresh_store(1)])
  obtain r_c evs_c w_c where third: "transfer_wrapped ?rt ?T ''a'' ''b'' ?done = (r_c, evs_c, w_c)"
    by (cases "transfer_wrapped ?rt ?T ''a'' ''b'' ?done") blast
  note flaky = verification_outcome [OF dl ul ce st fh th sh del first second third]
  let ?U = "unwritable_transfer" and ?rf = "stages_runtime Faithful"
  let ?v2 = "(fresh_store 0)\<lparr>dest_hash := Some ''d41d''\<rparr>"
  let ?digests = "computed_hashes ?rf (StreamHasher_init 8388608) (hexdigest_of (fresh_store 0))"
  have udl: "supported_download_hash (from_connector ?U) = ''md5'' # []"
    and uul: "supported_upload_hash (to_connector ?U) = ''md5'' # []"
    by simp_all
  have uce: "check_existing ?U ''a'' ''b'' (fresh_store 0) =
              (Inr False, [GetHash Source ''a'' ''md5'', GetHash Destination ''b'' ''md5''],
               fresh_store 0)"
    by (simp add: check_existing_def stmt_defs fresh_store_def)
  have ust: "run_stages ?rf (StreamHasher_init 8388608) ''a'' ''b'' (fresh_store 0) =
              ((None, None, None, hexdigest_of (fresh_store 0)), ?v2)"
    by (simp add: fresh_store_def)
  have ufh: "get_hash (from_connector ?U) ''a'' ''md5'' ?v2 = (Inr (Some ''d41d''), ?v2)"
    by (simp add: fresh_store_def)
  have uth: "get_hash (to_connector ?U) ''b'' ''md5'' ?v2 = (Inr (Some ''d41d''), ?v2)"
    by (simp add: fresh_store_def)
  have ush: "set_hashes (to_connector ?U) ''b'' ?digests ?v2 =
               (Inl (OtherException ''set_hashes''), ?v2)"
    by simp
  have udel: "delete (to_connector ?U) ''b'' ?v2 = (Inr (), fresh_store 0)"
    by (simp add: fresh_store_def)
  have ufirst: "(Inl (OtherException ''set_hashes''), ?good, ?v2) =
           (if Some ''d41d'' = Some (hexdigest_of (fresh_store 0) ''md5'')
                 \<and> Some ''d41d'' = Some (hexdigest_of (fresh_store 0) ''md5'')
            then (Inl (OtherException ''set_hashes''),
                  Invoke ''a'' ''b'' #
                    [GetHash Source ''a'' ''md5'', GetHash Destination ''b'' ''md5''] @
                    [RunStages ''a'' ''b'' 8388608, GetHash Source ''a'' ''md5'',
                     GetHash Destination ''b'' ''md5'', SetHashes ''b''],
                  ?v2)
            else (Inl (DataTransferError ''''),
                  Invoke ''a'' ''b'' #
                    [GetHash Source ''a'' ''md5'', GetHash Destination ''b'' ''md5''] @
                    [RunStages ''a'' ''b'' 8388608, GetHash Source ''a'' ''md5'',
                     GetHash Destination ''b'' ''md5'', Delete ''b''],
                  fresh_store 0))"
    by simp
  obtain r_b evs_b w_b where usecond: "transfer_wrapped ?rf ?U ''a'' ''b'' ?v2 = (r_b, evs_b, w_b)"
    by (cases "transfer_wrapped ?rf ?U ''a'' ''b'' ?v2") blast
  obtain r_d evs_d w_d where uthird: "transfer_wrapped ?rf ?U ''a'' ''b'' w_b = (r_d, evs_d, w_d)"
    by (cases "transfer_wrapped ?rf ?U ''a'' ''b'' w_b") blast
  note unwritable =
    verification_outcome [OF udl uul uce ust ufh uth ush udel ufirst usecond uthird]
  from flaky unwritable show ?thesis by simp
qed

text \<open>
  C6 as stated fails in both directions. With a copy that stores other bytes once,
  the destination's stored hash differs from the digest on the first attempt, and the
  call nevertheless returns, after a second attempt. With a destination whose
  \<^verbatim>\<open>set_hashes\<close> raises, both stored hashes equal the digest, and the call
  nevertheless raises.
\<close>

theorem verification_counterexample:
  "fst (transfer (stages_runtime FlakyCopy) (transfer_of False False 0) ''a'' ''b''
          (flaky_store 1)) = Inr ()
   \<and> fst (snd (transfer (stages_runtime FlakyCopy) (transfer_of False False 0) ''a'' ''b''
          (flaky_store 1))) =
      [Invoke ''a'' ''b'', GetHash Source ''a'' ''md5'', GetHash Destination ''b'' ''md5'',
       RunStages ''a'' ''b'' 8388608,
       GetHash Source ''a'' ''md5'', GetHash Destination ''b'' ''md5'', Delete ''b'',
       Invoke ''a'' ''b'', GetHash Source ''a'' ''md5'', GetHash Destination ''b'' ''md5'',
       RunStages ''a'' ''b'' 8388608,
       GetHash Source ''a'' ''md5'', GetHash Destination ''b'' ''md5'', SetHashes ''b'']
   \<and> transfer (stages_runtime Faithful) unwritable_transfer ''a'' ''b'' (fresh_store 0) =
      (Inl (OtherException ''set_hashes''),
       [Invoke ''a'' ''b'', GetHash Source ''a'' ''md5'', GetHash Destination ''b'' ''md5'',
        RunStages ''a'' ''b'' 8388608,
        GetHash Source ''a'' ''md5'', GetHash Destination ''b'' ''md5'', SetHashes ''b''],
       (fresh_store 0)\<lparr>dest_hash := Some ''d41d''\<rparr>)
   \<and> source_hash ((fresh_store 0)\<lparr>dest_hash := Some ''d41d''\<rparr>)
        = Some (hexdigest_of (fresh_store 0) ''md5'')
   \<and> dest_hash ((fresh_store 0)\<lparr>dest_hash := Some ''d41d''\<rparr>)
        = Some (hexdigest_of (fresh_store 0) ''md5'')"
proof -
  let ?T = "transfer_of False False 0" and ?rt = "stages_runtime FlakyCopy"
  let ?body = "transfer_wrapped ?rt ?T ''a'' ''b''"
  let ?bad = "[Invoke ''a'' ''b'', GetHash Source ''a'' ''md5'', GetHash Destination ''b'' ''md5'',
       RunStages ''a'' ''b'' 8388608,
       GetHash Source ''a'' ''md5'', GetHash Destination ''b'' ''md5'', Delete ''b'']"
  let ?good = "[Invoke ''a'' ''b'', GetHash Source ''a'' ''md5'', GetHash Destination ''b'' ''md5'',
       RunStages ''a'' ''b'' 8388608,
       GetHash Source ''a'' ''md5'', GetHash Destination ''b'' ''md5'', SetHashes ''b'']"
  let ?done = "(fresh_store 0)
        \<lparr>dest_hash := Some ''d41d'',
         dest_meta := computed_hashes ?rt (StreamHasher_init 8388608)
                        (hexdigest_of (fresh_store 0))\<rparr>"
  have first: "?body (flaky_store 1) = (Inl (DataTransferError ''''), ?bad, fresh_store 0)"
    by (rule flaky_copy_first_attempt)
  have t: "is_transfer_exception (DataTransferError '''')" by simp
  have second: "?body (fresh_store 0) = (Inr (), ?good, ?done)"
    by (rule copying_attempt [OF flaky_runtime_on_fresh_store(1)])
  obtain r_c evs_c w_c where third: "?body ?done = (r_c, evs_c, w_c)"
    by (cases "?body ?done") blast
  have flaky: "transfer ?rt ?T ''a'' ''b'' (flaky_store 1) = (Inr (), ?bad @ ?good, ?done)"
    unfolding transfer_def
    using retry_after_transfer_exception [where wrapped = "?body", OF first t second third]
    by simp
  have n: "\<not> is_transfer_exception (OtherException ''set_hashes'')" by simp
  have unwritable:
    "transfer (stages_runtime Faithful) unwritable_transfer ''a'' ''b'' (fresh_store 0) =
      (Inl (OtherException ''set_hashes''), ?good,
       (fresh_store 0)\<lparr>dest_hash := Some ''d41d''\<rparr>)"
    unfolding transfer_def
    by (rule retry_other_exception
          [where wrapped = "transfer_wrapped (stages_runtime Faithful) unwritable_transfer
                              ''a'' ''b''",
           OF unwritable_attempt n])
  have hashes: "source_hash ((fresh_store 0)\<lparr>dest_hash := Some ''d41d''\<rparr>)
        = Some (hexdigest_of (fresh_store 0) ''md5'')"
    "dest_hash ((fresh_store 0)\<lparr>dest_hash := Some ''d41d''\<rparr>)
        = Some (hexdigest_of (fresh_store 0) ''md5'')"
    by (simp_all add: fresh_store_def hexdigest_of_def)
  from flaky unwritable hashes show ?thesis by simp
qed

subsection \<open>A stage of the pipeline raises\<close>

text \<open>
  C7, as amended: when the pipeline runs and at least one of the three stages
  (download, hash, upload) ends with an exception, the attempt calls \<^verbatim>\<open>delete\<close> on
  the destination object, ignores what that call yields (a value or an exception), and
  raises one \<^verbatim>\<open>DataTransferError\<close> whose message is the messages of the stages that
  raised, in the order download, hash, upload, joined by blank lines. The decorator
  retries this error: the body is run again, and the call of \<^verbatim>\<open>transfer\<close> yields
  the outcome of the second attempt when it returns or raises an exception outside
  \<^verbatim>\<open>transfer_exceptions\<close>, and otherwise the outcome of the third attempt. The
  aggregated error of an attempt reaches the caller only when that attempt is the
  third.
\<close>

theorem stage_failure_outcome:
  assumes "supported_download_hash (from_connector self) = dl # dls"
    and "supported_upload_hash (to_connector self) = ul # uls"
    and "check_existing self f t w = (Inr False, evs, w1)"
    and "run_stages rt (StreamHasher_init 8388608) f t w1 =
           ((download_task, hash_task, upload_task, hexdigest), w2)"
    and "download_task \<noteq> None \<or> hash_task \<noteq> None \<or> upload_task \<noteq> None"
    and "delete (to_connector self) t w2 = (deleted, w_a)"
    and "transfer_wrapped rt self f t w_a = (r_b, evs_b, w_b)"
    and "transfer_wrapped rt self f t w_b = (r_c, evs_c, w_c)"
  shows "transfer_wrapped rt self f t w =
           (Inl (DataTransferError
                  (join [CHR 0x0A, CHR 0x0A]
                     (map str_exn (List.map_filter id [download_task, hash_task, upload_task])))),
            Invoke f t # evs @ [RunStages f t 8388608, Delete t], w_a)
         \<and> transfer rt self f t w =
           (case r_b of
              Inr x \<Rightarrow>
                (Inr x, (Invoke f t # evs @ [RunStages f t 8388608, Delete t]) @ evs_b, w_b)
            | Inl e_b \<Rightarrow>
                if \<not> is_transfer_exception e_b
                then (Inl e_b,
                      (Invoke f t # evs @ [RunStages f t 8388608, Delete t]) @ evs_b, w_b)
                else (r_c,
                      (Invoke f t # evs @ [RunStages f t 8388608, Delete t]) @ evs_b @ evs_c,
                      w_c))"
proof -
  let ?e = "DataTransferError
              (join [CHR 0x0A, CHR 0x0A]
                 (map str_exn (List.map_filter id [download_task, hash_task, upload_task])))"
  let ?first = "Invoke f t # evs @ [RunStages f t 8388608, Delete t]"
  have a: "transfer_wrapped rt self f t w = (Inl ?e, ?first, w_a)"
    using assms(1-6) by (rule attempt_stage_failure)
  have t: "is_transfer_exception ?e" by simp
  have "transfer rt self f t w =
           (case r_b of
              Inr x \<Rightarrow> (Inr x, ?first @ evs_b, w_b)
            | Inl e_b \<Rightarrow>
                if \<not> is_transfer_exception e_b then (Inl e_b, ?first @ evs_b, w_b)
                else (r_c, ?first @ evs_b @ evs_c, w_c))"
    unfolding transfer_def
    by (rule retry_after_transfer_exception
          [where wrapped = "transfer_wrapped rt self f t", OF a t assms(7) assms(8)])
  with a show ?thesis by simp
qed

text \<open>
  The download and the upload stage raise on each of the three attempts, and the
  delete call raises too: the caller gets the \<^verbatim>\<open>DataTransferError\<close> of the third
  attempt, with both messages.
\<close>

theorem stage_failure_outcome_witness:
  "run_stages (stages_runtime Failing) (StreamHasher_init 8388608) ''a'' ''b'' (fresh_store 0) =
     ((Some (RequestsConnectionError ''connection reset''), None,
       Some (OtherException ''stream closed''), hexdigest_of (fresh_store 0)),
      (fresh_store 0)\<lparr>dest_hash := Some ''part''\<rparr>)
   \<and> delete (to_connector (transfer_of False True 0)) ''b''
        ((fresh_store 0)\<lparr>dest_hash := Some ''part''\<rparr>) =
        (Inl (OtherException ''delete''), fresh_store 0)
   \<and> transfer_wrapped (stages_runtime Failing) (transfer_of False True 0) ''a'' ''b''
        (fresh_store 0) =
        (Inl (DataTransferError
                (''connection reset'' @ [CHR 0x0A, CHR 0x0A] @ ''stream closed'')),
         [Invoke ''a'' ''b'', GetHash Source ''a'' ''md5'', GetHash Destination ''b'' ''md5'',
          RunStages ''a'' ''b'' 8388608, Delete ''b''],
         fresh_store 0)
   \<and> transfer (stages_runtime Failing) (transfer_of False True 0) ''a'' ''b''
        (fresh_store 0) =
        (Inl (DataTransferError
                (''connection reset'' @ [CHR 0x0A, CHR 0x0A] @ ''stream closed'')),
         [Invoke ''a'' ''b'', GetHash Source ''a'' ''md5'', GetHash Destination ''b'' ''md5'',
          RunStages ''a'' ''b'' 8388608, Delete ''b'',
          Invoke ''a'' ''b'', GetHash Source ''a'' ''md5'', GetHash Destination ''b'' ''md5'',
          RunStages ''a'' ''b'' 8388608, Delete ''b'',
          Invoke ''a'' ''b'', GetHash Source ''a'' ''md5'', GetHash Destination ''b'' ''md5'',
          RunStages ''a'' ''b'' 8388608, Delete ''b''],
         fresh_store 0)"
proof -
  let ?T = "transfer_of False True 0" and ?rt = "stages_runtime Failing"
  let ?w2 = "(fresh_store 0)\<lparr>dest_hash := Some ''part''\<rparr>"
  let ?download = "Some (RequestsConnectionError ''connection reset'')"
  let ?upload = "Some (OtherException ''stream closed'')"
  have dl: "supported_download_hash (from_connector ?T) = ''md5'' # []"
    and ul: "supported_upload_hash (to_connector ?T) = ''md5'' # []"
    by simp_all
  have ce: "check_existing ?T ''a'' ''b'' (fresh_store 0) =
              (Inr False, [GetHash Source ''a'' ''md5'', GetHash Destination ''b'' ''md5''],
               fresh_store 0)"
    by (rule check_existing_fresh_store)
  have st: "run_stages ?rt (StreamHasher_init 8388608) ''a'' ''b'' (fresh_store 0) =
              ((?download, None, ?upload, hexdigest_of (fresh_store 0)), ?w2)"
    by simp
  have ex: "?download \<noteq> None \<or> (None :: exn option) \<noteq> None \<or> ?upload \<noteq> None"
    by simp
  have del: "delete (to_connector ?T) ''b'' ?w2 =
               (Inl (OtherException ''delete''), fresh_store 0)"
    by (simp add: fresh_store_def)
  have again: "transfer_wrapped ?rt ?T ''a'' ''b'' (fresh_store 0) =
        (Inl (DataTransferError
                (''connection reset'' @ [CHR 0x0A, CHR 0x0A] @ ''stream closed'')),
         [Invoke ''a'' ''b'', GetHash Source ''a'' ''md5'', GetHash Destination ''b'' ''md5'',
          RunStages ''a'' ''b'' 8388608, Delete ''b''],
         fresh_store 0)"
    by (rule failing_attempt)
  from stage_failure_outcome [OF dl ul ce st ex del again again] st del
  show ?thesis by (simp add: List.map_filter_def)
qed

text \<open>
  C7 as stated fails: when the download stage raises on the first attempt only, the
  destination is deleted and the aggregated error is raised inside the call, but the
  caller of \<^verbatim>\<open>transfer\<close> gets a normal return, from the second attempt.
\<close>

theorem stage_failure_counterexample:
  "transfer_wrapped (stages_runtime FlakyDownload) (transfer_of False False 0) ''a'' ''b''
     (flaky_store 1) =
     (Inl (DataTransferError ''connection reset''),
      [Invoke ''a'' ''b'', GetHash Source ''a'' ''md5'', GetHash Destination ''b'' ''md5'',
       RunStages ''a'' ''b'' 8388608, Delete ''b''],
      fresh_store 0)
   \<and> fst (transfer (stages_runtime FlakyDownload) (transfer_of False False 0) ''a'' ''b''
          (flaky_store 1)) = Inr ()
   \<and> fst (snd (transfer (stages_runtime FlakyDownload) (transfer_of False False 0) ''a'' ''b''
          (flaky_store 1))) =
      [Invoke ''a'' ''b'', GetHash Source ''a'' ''md5'', GetHash Destination ''b'' ''md5'',
       RunStages ''a'' ''b'' 8388608, Delete ''b'',
       Invoke ''a'' ''b'', GetHash Source ''a'' ''md5'', GetHash Destination ''b'' ''md5'',
       RunStages ''a'' ''b'' 8388608,
       GetHash Source ''a'' ''md5'', GetHash Destination ''b'' ''md5'', SetHashes ''b'']"
proof -
  let ?T = "transfer_of False False 0" and ?rt = "stages_runtime FlakyDownload"
  let ?body = "transfer_wrapped ?rt ?T ''a'' ''b''"
  let ?bad = "[Invoke ''a'' ''b'', GetHash Source ''a'' ''md5'', GetHash Destination ''b'' ''md5'',
       RunStages ''a'' ''b'' 8388608, Delete ''b'']"
  let ?good = "[Invoke ''a'' ''b'', GetHash Source ''a'' ''md5'', GetHash Destination ''b'' ''md5'',
       RunStages ''a'' ''b'' 8388608,
       GetHash Source ''a'' ''md5'', GetHash Destination ''b'' ''md5'', SetHashes ''b'']"
  let ?done = "(fresh_store 0)
        \<lparr>dest_hash := Some ''d41d'',
         dest_meta := computed_hashes ?rt (StreamHasher_init 8388608)
                        (hexdigest_of (fresh_store 0))\<rparr>"
  have first: "?body (flaky_store 1) =
                 (Inl (DataTransferError ''connection reset''), ?bad, fresh_store 0)"
    by (rule flaky_download_first_attempt)
  have t: "is_transfer_exception (DataTransferError ''connection reset'')" by simp
  have second: "?body (fresh_store 0) = (Inr (), ?good, ?done)"
    by (rule copying_attempt [OF flaky_runtime_on_fresh_store(2)])
  obtain r_c evs_c w_c where third: "?body ?done = (r_c, evs_c, w_c)"
    by (cases "?body ?done") blast
  have "transfer ?rt ?T ''a'' ''b'' (flaky_store 1) = (Inr (), ?bad @ ?good, ?done)"
    unfolding transfer_def
    using retry_after_transfer_exception [where wrapped = "?body", OF first t second third]
    by simp
  with first show ?thesis by simp
qed

subsection \<open>The object is already in place\<close>

lemma ran_pipeline_simps [simp]:
  "ran_pipeline [] = False"
  "ran_pipeline (ev # evs) = (is_RunStages ev \<or> ran_pipeline evs)"
  "ran_pipeline (evs @ evs') = (ran_pipeline evs \<or> ran_pipeline evs')"
  by (simp_all add: ran_pipeline_def)

text \<open>
  The algorithm the code takes, \<^verbatim>\<open>common_hash[0]\<close>, is the first entry of the
  destination's list of download hashes that the source's list holds too.
\<close>

lemma find_filter:
  "List.find P xs = (case filter P xs of [] \<Rightarrow> None | x # rest \<Rightarrow> Some x)"
  by (induction xs) simp_all

lemma first_shared_algorithm_common_hash:
  "first_shared_algorithm self = (case common_hash self of [] \<Rightarrow> None | h # hs \<Rightarrow> Some h)"
  by (simp add: first_shared_algorithm_def common_hash_def Let_def find_filter)

lemma stored_hashes_agree_no_common:
  assumes "common_hash self = []"
  shows "\<not> stored_hashes_agree self f t w"
  using assms by (simp add: stored_hashes_agree_def first_shared_algorithm_common_hash)

lemma stored_hashes_agree_fetched:
  assumes "common_hash self = h # hs"
    and "get_hash (from_connector self) f h w = (Inr from_hash, w1)"
    and "get_hash (to_connector self) t h w1 = (Inr to_hash, w2)"
  shows "stored_hashes_agree self f t w = (from_hash = to_hash \<and> from_hash \<noteq> None)"
  using assms
  by (cases from_hash)
    (auto simp add: stored_hashes_agree_def first_shared_algorithm_common_hash)

lemma stored_hashes_agree_source_raises:
  assumes "common_hash self = h # hs"
    and "get_hash (from_connector self) f h w = (Inl e, w1)"
  shows "\<not> stored_hashes_agree self f t w"
  using assms by (simp add: stored_hashes_agree_def first_shared_algorithm_common_hash)

lemma stored_hashes_agree_dest_raises:
  assumes "common_hash self = h # hs"
    and "get_hash (from_connector self) f h w = (Inr from_hash, w1)"
    and "get_hash (to_connector self) t h w1 = (Inl e, w2)"
  shows "\<not> stored_hashes_agree self f t w"
  using assms
  by (cases from_hash)
    (simp_all add: stored_hashes_agree_def first_shared_algorithm_common_hash)

text \<open>The algorithm of the check is one that both connectors list.\<close>

lemma common_hash_shared:
  assumes "common_hash self = h # hs"
  shows "h \<in> set (supported_download_hash (from_connector self))
         \<and> h \<in> set (supported_download_hash (to_connector self))"
proof -
  have "h \<in> set (common_hash self)" using assms by simp
  then show ?thesis by (simp add: common_hash_def)
qed

text \<open>
  One run of the body, with a native hash on each side: it returns without running the
  pipeline exactly when the stored hashes for the first shared algorithm agree.
\<close>

lemma attempt_skips_iff:
  assumes "supported_download_hash (from_connector self) \<noteq> []"
    and "supported_upload_hash (to_connector self) \<noteq> []"
    and "transfer_wrapped rt self f t w = (r, evs', w')"
  shows "(r = Inr () \<and> \<not> ran_pipeline evs') = stored_hashes_agree self f t w"
proof -
  obtain dl dls where dl: "supported_download_hash (from_connector self) = dl # dls"
    using assms(1) by (cases "supported_download_hash (from_connector self)") simp_all
  obtain ul uls where ul: "supported_upload_hash (to_connector self) = ul # uls"
    using assms(2) by (cases "supported_upload_hash (to_connector self)") simp_all
  let ?lhs = "fst (transfer_wrapped rt self f t w) = Inr ()
                \<and> \<not> ran_pipeline (fst (snd (transfer_wrapped rt self f t w)))"
  have main: "?lhs = stored_hashes_agree self f t w"
  proof (cases "common_hash self")
    case Nil
    then have "check_existing self f t w = (Inr False, [], w)"
      by (rule check_existing_no_common)
    from attempt_runs_stages [OF dl ul this, of rt]
    have "\<not> ?lhs" by auto
    with Nil show ?thesis by (simp add: stored_hashes_agree_no_common)
  next
    case (Cons h hs)
    obtain rf w1 where gf: "get_hash (from_connector self) f h w = (rf, w1)"
      by (cases "get_hash (from_connector self) f h w") blast
    show ?thesis
    proof (cases rf)
      case (Inl e)
      with gf have gf': "get_hash (from_connector self) f h w = (Inl e, w1)" by simp
      from attempt_check_raises [OF dl ul check_existing_source_raises [OF Cons gf'], of rt]
      have "\<not> ?lhs" by simp
      with stored_hashes_agree_source_raises [OF Cons gf'] show ?thesis by simp
    next
      case (Inr from_hash)
      with gf have gf': "get_hash (from_connector self) f h w = (Inr from_hash, w1)" by simp
      obtain rt' w2 where gt: "get_hash (to_connector self) t h w1 = (rt', w2)"
        by (cases "get_hash (to_connector self) t h w1") blast
      show ?thesis
      proof (cases rt')
        case (Inl e)
        with gt have gt': "get_hash (to_connector self) t h w1 = (Inl e, w2)" by simp
        from attempt_check_raises [OF dl ul check_existing_dest_raises [OF Cons gf' gt'], of rt]
        have "\<not> ?lhs" by simp
        with stored_hashes_agree_dest_raises [OF Cons gf' gt'] show ?thesis by simp
      next
        case (Inr to_hash)
        with gt have gt': "get_hash (to_connector self) t h w1 = (Inr to_hash, w2)" by simp
        note ce = check_existing_fetched [OF Cons gf' gt']
        note agree = stored_hashes_agree_fetched [OF Cons gf' gt']
        show ?thesis
        proof (cases "from_hash = to_hash \<and> from_hash \<noteq> None")
          case True
          with ce have "check_existing self f t w =
              (Inr True, [GetHash Source f h, GetHash Destination t h], w2)"
            by auto
          from attempt_skips [OF dl ul this, of rt]
          have "?lhs" by (simp add: ran_pipeline_def)
          with agree True show ?thesis by auto
        next
          case False
          with ce have "check_existing self f t w =
              (Inr False, [GetHash Source f h, GetHash Destination t h], w2)"
            by auto
          from attempt_runs_stages [OF dl ul this, of rt]
          have "\<not> ?lhs" by auto
          with agree False show ?thesis by auto
        qed
      qed
    qed
  qed
  with assms(3) show ?thesis by simp
qed

text \<open>The connectors that share two algorithms.\<close>

lemma two_hash_fields [simp]:
  "supported_download_hash (from_connector two_hash_transfer) = [''md5'', ''crc32c'']"
  "supported_download_hash (to_connector two_hash_transfer) = [''crc32c'', ''md5'']"
  "supported_upload_hash (to_connector two_hash_transfer) = [''md5'']"
  "get_hash (from_connector two_hash_transfer) url algo w =
     (Inr (if algo = ''md5'' then source_hash w else None), w)"
  "get_hash (to_connector two_hash_transfer) url algo w =
     (Inr (if algo = ''md5'' then dest_hash w else None), w)"
  "set_hashes (to_connector two_hash_transfer) url hashes w =
     (Inr (), w\<lparr>dest_meta := hashes\<rparr>)"
  "common_hash two_hash_transfer = [''crc32c'', ''md5'']"
  by (simp_all add: two_hash_transfer_def common_hash_def)

lemma two_hash_attempt:
  "transfer_wrapped (stages_runtime Faithful) two_hash_transfer f t (synced_store 0) =
     (Inr (),
      [Invoke f t, GetHash Source f ''crc32c'', GetHash Destination t ''crc32c'',
       RunStages f t 8388608,
       GetHash Source f ''md5'', GetHash Destination t ''md5'', SetHashes t],
      (synced_store 0)
        \<lparr>dest_meta := computed_hashes (stages_runtime Faithful) (StreamHasher_init 8388608)
                        (hexdigest_of (synced_store 0))\<rparr>)"
proof -
  let ?T = "two_hash_transfer" and ?rt = "stages_runtime Faithful"
  let ?w = "synced_store 0"
  let ?hashes = "computed_hashes ?rt (StreamHasher_init 8388608) (hexdigest_of ?w)"
  have dl: "supported_download_hash (from_connector ?T) = ''md5'' # [''crc32c'']"
    and ul: "supported_upload_hash (to_connector ?T) = ''md5'' # []"
    by simp_all
  have ce: "check_existing ?T f t ?w =
              (Inr False, [GetHash Source f ''crc32c'', GetHash Destination t ''crc32c''], ?w)"
    by (simp add: check_existing_def stmt_defs)
  have st: "run_stages ?rt (StreamHasher_init 8388608) f t ?w =
              ((None, None, None, hexdigest_of ?w), ?w)"
    by (simp add: synced_store_def)
  have fh: "get_hash (from_connector ?T) f ''md5'' ?w =
              (Inr (Some (hexdigest_of ?w ''md5'')), ?w)"
    by (simp add: synced_store_def hexdigest_of_def)
  have th: "get_hash (to_connector ?T) t ''md5'' ?w =
              (Inr (Some (hexdigest_of ?w ''md5'')), ?w)"
    by (simp add: synced_store_def hexdigest_of_def)
  have sh: "set_hashes (to_connector ?T) t ?hashes ?w = (Inr (), ?w\<lparr>dest_meta := ?hashes\<rparr>)"
    by simp
  show ?thesis
    using attempt_stored [OF dl ul ce st fh th sh] by simp
qed

text \<open>
  C8, as amended. Let both connectors have a native hash (element 0 of the source's
  download hashes and of the destination's upload hashes, which the body reads first),
  and call the stored hashes in agreement when the connectors share a download hash
  algorithm and, for the first entry of the destination's list of download hashes that
  the source's list holds too, the stored hash fetched from the source and then the one
  fetched from the destination are both present and equal.
  \<^item> One run of the body returns without running the pipeline if and only if the
    stored hashes are in agreement.
  \<^item> A call of \<^verbatim>\<open>transfer\<close> returns without having run the pipeline if and only
    if the stored hashes are in agreement at the first attempt, or at a later attempt
    (the second or the third) that is reached because every attempt before it raised a
    transfer exception without running the pipeline.
\<close>

theorem skips_pipeline_iff_first_shared_hash_agrees:
  assumes "supported_download_hash (from_connector self) \<noteq> []"
    and "supported_upload_hash (to_connector self) \<noteq> []"
    and "transfer_wrapped rt self f t w = (r_a, evs_a, w_a)"
    and "transfer_wrapped rt self f t w_a = (r_b, evs_b, w_b)"
    and "transfer_wrapped rt self f t w_b = (r_c, evs_c, w_c)"
  shows "(r_a = Inr () \<and> \<not> ran_pipeline evs_a) = stored_hashes_agree self f t w
         \<and> (fst (transfer rt self f t w) = Inr ()
              \<and> \<not> ran_pipeline (fst (snd (transfer rt self f t w))))
           = (stored_hashes_agree self f t w
              \<or> (raised_transfer_exception r_a \<and> \<not> ran_pipeline evs_a
                 \<and> (stored_hashes_agree self f t w_a
                    \<or> (raised_transfer_exception r_b \<and> \<not> ran_pipeline evs_b
                       \<and> stored_hashes_agree self f t w_b))))"
proof -
  note ia = attempt_skips_iff [OF assms(1,2) assms(3), symmetric]
  note ib = attempt_skips_iff [OF assms(1,2) assms(4), symmetric]
  note ic = attempt_skips_iff [OF assms(1,2) assms(5), symmetric]
  have tr: "transfer rt self f t w =
           (case r_a of
              Inr x \<Rightarrow> (Inr x, evs_a, w_a)
            | Inl e_a \<Rightarrow>
                if \<not> is_transfer_exception e_a then (Inl e_a, evs_a, w_a)
                else (case r_b of
                        Inr x \<Rightarrow> (Inr x, evs_a @ evs_b, w_b)
                      | Inl e_b \<Rightarrow>
                          if \<not> is_transfer_exception e_b then (Inl e_b, evs_a @ evs_b, w_b)
                          else (r_c, evs_a @ evs_b @ evs_c, w_c)))"
    unfolding transfer_def
    by (rule retry_three_attempts
          [where wrapped = "transfer_wrapped rt self f t", OF assms(3) assms(4) assms(5)])
  have first: "(r_a = Inr () \<and> \<not> ran_pipeline evs_a) = stored_hashes_agree self f t w"
    using ia by simp
  have whole: "(fst (transfer rt self f t w) = Inr ()
              \<and> \<not> ran_pipeline (fst (snd (transfer rt self f t w))))
           = ((r_a = Inr () \<and> \<not> ran_pipeline evs_a)
              \<or> (raised_transfer_exception r_a \<and> \<not> ran_pipeline evs_a
                 \<and> ((r_b = Inr () \<and> \<not> ran_pipeline evs_b)
                    \<or> (raised_transfer_exception r_b \<and> \<not> ran_pipeline evs_b
                       \<and> (r_c = Inr () \<and> \<not> ran_pipeline evs_c)))))"
  proof (cases r_a)
    case (Inr x)
    with tr show ?thesis by simp
  next
    case a: (Inl e_a)
    show ?thesis
    proof (cases "is_transfer_exception e_a")
      case False
      with a tr show ?thesis by simp
    next
      case ta: True
      show ?thesis
      proof (cases r_b)
        case (Inr x)
        with a ta tr show ?thesis by auto
      next
        case b: (Inl e_b)
        show ?thesis
        proof (cases "is_transfer_exception e_b")
          case False
          with a ta b tr show ?thesis by simp
        next
          case True
          with a ta b tr show ?thesis by auto
        qed
      qed
    qed
  qed
  from first whole ib ic show ?thesis by simp
qed

text \<open>
  With one read timeout to come on the synchronised store, the first attempt raises at
  the first hash lookup, the second finds the hashes in agreement, and the call returns
  without a run of the pipeline.
\<close>

theorem skips_pipeline_iff_first_shared_hash_agrees_witness:
  "supported_download_hash (from_connector (transfer_of False False 0)) \<noteq> []
   \<and> supported_upload_hash (to_connector (transfer_of False False 0)) \<noteq> []
   \<and> transfer_wrapped (stages_runtime Faithful) (transfer_of False False 0) ''a'' ''b''
        (synced_store (Suc 0)) =
        (Inl (ReadTimeout ''read timed out''),
         [Invoke ''a'' ''b'', GetHash Source ''a'' ''md5''], synced_store 0)
   \<and> transfer_wrapped (stages_runtime Faithful) (transfer_of False False 0) ''a'' ''b''
        (synced_store 0) =
        (Inr (), [Invoke ''a'' ''b'', GetHash Source ''a'' ''md5'',
                  GetHash Destination ''b'' ''md5''], synced_store 0)
   \<and> \<not> stored_hashes_agree (transfer_of False False 0) ''a'' ''b'' (synced_store (Suc 0))
   \<and> stored_hashes_agree (transfer_of False False 0) ''a'' ''b'' (synced_store 0)
   \<and> fst (transfer (stages_runtime Faithful) (transfer_of False False 0) ''a'' ''b''
            (synced_store (Suc 0))) = Inr ()
   \<and> \<not> ran_pipeline (fst (snd (transfer (stages_runtime Faithful)
            (transfer_of False False 0) ''a'' ''b'' (synced_store (Suc 0)))))"
proof -
  let ?T = "transfer_of False False 0" and ?rt = "stages_runtime Faithful"
  have dl: "supported_download_hash (from_connector ?T) \<noteq> []"
    and ul: "supported_upload_hash (to_connector ?T) \<noteq> []"
    by simp_all
  have a: "transfer_wrapped ?rt ?T ''a'' ''b'' (synced_store (Suc 0)) =
        (Inl (ReadTimeout ''read timed out''),
         [Invoke ''a'' ''b'', GetHash Source ''a'' ''md5''], synced_store 0)"
    by (rule attempt_times_out)
  have b: "transfer_wrapped ?rt ?T ''a'' ''b'' (synced_store 0) =
        (Inr (), [Invoke ''a'' ''b'', GetHash Source ''a'' ''md5'',
                  GetHash Destination ''b'' ''md5''], synced_store 0)"
    by (rule attempt_on_synced_store)
  have agree: "stored_hashes_agree ?T ''a'' ''b'' (synced_store 0)"
    by (simp add: stored_hashes_agree_def first_shared_algorithm_def synced_store_def)
  have differ: "\<not> stored_hashes_agree ?T ''a'' ''b'' (synced_store (Suc 0))"
    by (simp add: stored_hashes_agree_def first_shared_algorithm_def synced_store_def)
  from skips_pipeline_iff_first_shared_hash_agrees [OF dl ul a b b] dl ul a b agree differ
  show ?thesis by simp
qed

text \<open>
  C8 as stated fails: both connectors list \<^verbatim>\<open>md5\<close> and \<^verbatim>\<open>crc32c\<close>, and the
  stored \<^verbatim>\<open>md5\<close> hashes of the two sides are present and equal, so the condition of
  the claim holds for a shared algorithm. The code looks only at \<^verbatim>\<open>crc32c\<close>, the
  first shared entry of the destination's list, finds no stored hash, and runs the
  pipeline.
\<close>

theorem some_shared_hash_counterexample:
  "some_shared_hash_agrees two_hash_transfer ''a'' ''b'' (synced_store 0)
   \<and> fst (transfer (stages_runtime Faithful) two_hash_transfer ''a'' ''b'' (synced_store 0))
       = Inr ()
   \<and> fst (snd (transfer (stages_runtime Faithful) two_hash_transfer ''a'' ''b''
                 (synced_store 0))) =
       [Invoke ''a'' ''b'', GetHash Source ''a'' ''crc32c'', GetHash Destination ''b'' ''crc32c'',
        RunStages ''a'' ''b'' 8388608,
        GetHash Source ''a'' ''md5'', GetHash Destination ''b'' ''md5'', SetHashes ''b'']
   \<and> ran_pipeline (fst (snd (transfer (stages_runtime Faithful) two_hash_transfer ''a'' ''b''
                 (synced_store 0))))"
proof -
  have shared: "some_shared_hash_agrees two_hash_transfer ''a'' ''b'' (synced_store 0)"
    by (simp add: some_shared_hash_agrees_def synced_store_def)
  have "transfer (stages_runtime Faithful) two_hash_transfer ''a'' ''b'' (synced_store 0) =
     (Inr (),
      [Invoke ''a'' ''b'', GetHash Source ''a'' ''crc32c'', GetHash Destination ''b'' ''crc32c'',
       RunStages ''a'' ''b'' 8388608,
       GetHash Source ''a'' ''md5'', GetHash Destination ''b'' ''md5'', SetHashes ''b''],
      (synced_store 0)
        \<lparr>dest_meta := computed_hashes (stages_runtime Faithful) (StreamHasher_init 8388608)
                        (hexdigest_of (synced_store 0))\<rparr>)"
    unfolding transfer_def
    by (rule retry_returns
          [where wrapped = "transfer_wrapped (stages_runtime Faithful) two_hash_transfer
                              ''a'' ''b''",
           OF two_hash_attempt])
  with shared show ?thesis by simp
qed

text \<open>
  C10: when the stored hashes agree, a call of \<^verbatim>\<open>transfer\<close> consists of one run of
  the body that makes two connector calls, \<^verbatim>\<open>get_hash\<close> on the source and
  \<^verbatim>\<open>get_hash\<close> on the destination: the pipeline does not run (no \<^verbatim>\<open>get\<close>, no
  \<^verbatim>\<open>push\<close>), and there is no \<^verbatim>\<open>delete\<close> and no \<^verbatim>\<open>set_hashes\<close>. The world
  afterwards is the one these two lookups leave; where they leave the world as it was,
  the call leaves it as it was.
\<close>

theorem skip_path_only_reads_hashes:
  assumes "supported_download_hash (from_connector self) \<noteq> []"
    and "supported_upload_hash (to_connector self) \<noteq> []"
    and "common_hash self = h # hs"
    and "stored_hashes_agree self f t w"
  shows "transfer rt self f t w =
           (Inr (), [Invoke f t, GetHash Source f h, GetHash Destination t h],
            snd (get_hash (to_connector self) t h (snd (get_hash (from_connector self) f h w))))
         \<and> (snd (get_hash (from_connector self) f h w) = w
              \<and> snd (get_hash (to_connector self) t h w) = w
            \<longrightarrow> snd (snd (transfer rt self f t w)) = w)"
proof -
  obtain dl dls where dl: "supported_download_hash (from_connector self) = dl # dls"
    using assms(1) by (cases "supported_download_hash (from_connector self)") simp_all
  obtain ul uls where ul: "supported_upload_hash (to_connector self) = ul # uls"
    using assms(2) by (cases "supported_upload_hash (to_connector self)") simp_all
  obtain rf w1 where gf: "get_hash (from_connector self) f h w = (rf, w1)"
    by (cases "get_hash (from_connector self) f h w") blast
  obtain rt' w2 where gt: "get_hash (to_connector self) t h w1 = (rt', w2)"
    by (cases "get_hash (to_connector self) t h w1") blast
  from assms(3,4) gf gt obtain stored where rf: "rf = Inr (Some stored)"
    and rt': "rt' = Inr (Some stored)"
    by (auto simp add: stored_hashes_agree_def first_shared_algorithm_common_hash split: sum.splits option.splits)
  from gf rf have gf': "get_hash (from_connector self) f h w = (Inr (Some stored), w1)"
    by simp
  from gt rt' have gt': "get_hash (to_connector self) t h w1 = (Inr (Some stored), w2)"
    by simp
  from check_existing_fetched [OF assms(3) gf' gt']
  have "check_existing self f t w =
          (Inr True, [GetHash Source f h, GetHash Destination t h], w2)"
    by simp
  from attempt_skips [OF dl ul this, of rt]
  have "transfer rt self f t w =
          (Inr (), [Invoke f t, GetHash Source f h, GetHash Destination t h], w2)"
    unfolding transfer_def
    using retry_returns [where wrapped = "transfer_wrapped rt self f t"] by simp
  with gf' gt' show ?thesis by auto
qed

theorem skip_path_only_reads_hashes_witness:
  "supported_download_hash (from_connector (transfer_of False False 0)) \<noteq> []
   \<and> supported_upload_hash (to_connector (transfer_of False False 0)) \<noteq> []
   \<and> common_hash (transfer_of False False 0) = ''md5'' # []
   \<and> stored_hashes_agree (transfer_of False False 0) ''a'' ''b'' (synced_store 0)
   \<and> snd (get_hash (from_connector (transfer_of False False 0)) ''a'' ''md5'' (synced_store 0))
       = synced_store 0
   \<and> snd (get_hash (to_connector (transfer_of False False 0)) ''b'' ''md5'' (synced_store 0))
       = synced_store 0
   \<and> transfer (stages_runtime Faithful) (transfer_of False False 0) ''a'' ''b''
       (synced_store 0) =
       (Inr (), [Invoke ''a'' ''b'', GetHash Source ''a'' ''md5'',
                 GetHash Destination ''b'' ''md5''], synced_store 0)"
proof -
  let ?T = "transfer_of False False 0" and ?rt = "stages_runtime Faithful"
  have dl: "supported_download_hash (from_connector ?T) \<noteq> []"
    and ul: "supported_upload_hash (to_connector ?T) \<noteq> []"
    and ch: "common_hash ?T = ''md5'' # []"
    by simp_all
  have agree: "stored_hashes_agree ?T ''a'' ''b'' (synced_store 0)"
    by (simp add: stored_hashes_agree_def first_shared_algorithm_def synced_store_def)
  have ro: "snd (get_hash (from_connector ?T) ''a'' ''md5'' (synced_store 0)) = synced_store 0"
    "snd (get_hash (to_connector ?T) ''b'' ''md5'' (synced_store 0)) = synced_store 0"
    by (simp_all add: synced_store_def)
  from skip_path_only_reads_hashes [OF dl ul ch agree, of ?rt] dl ul ch agree ro
  show ?thesis by simp
qed

subsection \<open>Transfer of all objects under a URL\<close>

lemma transfer_on_synced_store:
  "transfer rt (transfer_of z d k) f t (synced_store 0) =
     (Inr (), [Invoke f t, GetHash Source f ''md5'', GetHash Destination t ''md5''],
      synced_store 0)"
  unfolding transfer_def
  by (rule retry_returns [where wrapped = "transfer_wrapped rt (transfer_of z d k) f t",
        OF attempt_on_synced_store])

text \<open>The loop over \<^verbatim>\<open>["a", "dir/", "b"]\<close>: the directory entry is passed over.\<close>

lemma transfer_entries_on_synced_store:
  "transfer_entries (stages_runtime b) (transfer_of z d k) ''u'' [''a'', ''dir/'', ''b'']
     (synced_store 0, h) =
     (Inr (),
      [Invoke ''u/a'' ''u/a'', GetHash Source ''u/a'' ''md5'', GetHash Destination ''u/a'' ''md5'',
       Invoke ''u/b'' ''u/b'', GetHash Source ''u/b'' ''md5'', GetHash Destination ''u/b'' ''md5''],
      (synced_store 0, h))"
  by (simp add: andthen_def ret_def on_world_def endswith_slash_def transfer_on_synced_store)

lemma resolve_objects_given:
  "resolve_objects self url (Some objects) s = (Inr objects, [], s)"
  by (simp add: resolve_objects_def ret_def)

text \<open>
  C5 fails on the code. The source connector's \<^verbatim>\<open>before_get\<close> rewrites the list
  \<^verbatim>\<open>["a", "dir/", "b"]\<close> (at address 0) into the new list \<^verbatim>\<open>["all.zip"]\<close> (at
  address 1), which is handed to \<^verbatim>\<open>before_push\<close> and to the two hooks after the
  transfer. The loop runs over the list it was given: the objects transferred are
  \<^verbatim>\<open>u/a\<close> and \<^verbatim>\<open>u/b\<close>, and \<^verbatim>\<open>u/all.zip\<close> is not.
\<close>

theorem transfer_rec_loops_over_given_list:
  "transfer_rec (stages_runtime Faithful) (transfer_of True False 0) ''u'' (Some 0)
     (synced_store 0, some_lists) =
     (Inr (Some 1),
      [BeforeGet 0 ''u'', BeforePush 1 ''u'',
       Invoke ''u/a'' ''u/a'', GetHash Source ''u/a'' ''md5'', GetHash Destination ''u/a'' ''md5'',
       Invoke ''u/b'' ''u/b'', GetHash Source ''u/b'' ''md5'', GetHash Destination ''u/b'' ''md5'',
       AfterGet 1 ''u'', AfterPush 1 ''u''],
      (synced_store 0, some_lists(1 := [''all.zip''])))
   \<and> (some_lists(1 := [''all.zip''])) 1 = [''all.zip'']
   \<and> (some_lists(1 := [''all.zip''])) 0 = [''a'', ''dir/'', ''b'']"
proof -
  let ?T = "transfer_of True False 0" and ?rt = "stages_runtime Faithful"
  let ?h = "some_lists(Suc 0 := [''all.zip''])"
  have pre: "pre_processing ?T ''u'' 0 (synced_store 0, some_lists) =
               (Inr (Suc 0), [BeforeGet 0 ''u'', BeforePush (Suc 0) ''u''], (synced_store 0, ?h))"
    by (simp add: pre_processing_def stmt_defs)
  have objects: "some_lists 0 = [''a'', ''dir/'', ''b'']"
    by (simp add: some_lists_def)
  have loop: "transfer_entries ?rt ?T ''u'' [''a'', ''dir/'', ''b''] (synced_store 0, ?h) =
     (Inr (),
      [Invoke ''u/a'' ''u/a'', GetHash Source ''u/a'' ''md5'', GetHash Destination ''u/a'' ''md5'',
       Invoke ''u/b'' ''u/b'', GetHash Source ''u/b'' ''md5'', GetHash Destination ''u/b'' ''md5''],
      (synced_store 0, ?h))"
    by (rule transfer_entries_on_synced_store)
  have post: "post_processing ?T ''u'' (Suc 0) (synced_store 0, ?h) =
                (Inr (Some (Suc 0)), [AfterGet (Suc 0) ''u'', AfterPush (Suc 0) ''u''],
                 (synced_store 0, ?h))"
    by (simp add: post_processing_def stmt_defs)
  have "transfer_rec ?rt ?T ''u'' (Some 0) (synced_store 0, some_lists) =
     (Inr (Some (Suc 0)),
      [BeforeGet 0 ''u'', BeforePush (Suc 0) ''u'',
       Invoke ''u/a'' ''u/a'', GetHash Source ''u/a'' ''md5'', GetHash Destination ''u/a'' ''md5'',
       Invoke ''u/b'' ''u/b'', GetHash Source ''u/b'' ''md5'', GetHash Destination ''u/b'' ''md5'',
       AfterGet (Suc 0) ''u'', AfterPush (Suc 0) ''u''],
      (synced_store 0, ?h))"
    by (simp add: transfer_rec_def resolve_objects_given reraise_as_def andthen_def ret_def
        Let_def pre objects loop post del: transfer_entries.simps)
  with objects show ?thesis by simp
qed

text \<open>
  C9: in \<^verbatim>\<open>transfer_rec\<close>, once the list of objects is there, an exception raised
  by \<^verbatim>\<open>before_get\<close>, by \<^verbatim>\<open>before_push\<close>, or, after the transfers have
  returned, by \<^verbatim>\<open>after_get\<close> or by \<^verbatim>\<open>after_push\<close> does not reach the caller:
  \<^verbatim>\<open>transfer_rec\<close> raises a \<^verbatim>\<open>DataTransferError\<close> (without a message) in its
  place, whatever the class of the exception of the hook, and calls nothing after the
  hook that raised.
\<close>

theorem hook_exceptions_become_DataTransferError:
  assumes "resolve_objects self url objects_arg s = (Inr objects, evs_r, s_r)"
  shows "(before_get (from_connector self) objects url s_r = (Inl e, s_bg) \<longrightarrow>
            transfer_rec rt self url objects_arg s =
              (Inl (DataTransferError ''''), evs_r @ [BeforeGet objects url], s_bg))
       \<and> (before_get (from_connector self) objects url s_r = (Inr to_transfer, s_bg)
            \<and> before_push (to_connector self) to_transfer url s_bg = (Inl e, s_bp) \<longrightarrow>
            transfer_rec rt self url objects_arg s =
              (Inl (DataTransferError ''''),
               evs_r @ [BeforeGet objects url, BeforePush to_transfer url], s_bp))
       \<and> (before_get (from_connector self) objects url s_r = (Inr to_transfer, s_bg)
            \<and> before_push (to_connector self) to_transfer url s_bg = (Inr (), s_bp)
            \<and> transfer_entries rt self (Path rt url) (snd s_bp objects) s_bp = (Inr (), evs, s_loop)
            \<and> after_get (from_connector self) to_transfer (Path rt url) s_loop = (Inl e, s_ag) \<longrightarrow>
            transfer_rec rt self url objects_arg s =
              (Inl (DataTransferError ''''),
               evs_r @ [BeforeGet objects url, BeforePush to_transfer url] @ evs
                 @ [AfterGet to_transfer (Path rt url)], s_ag))
       \<and> (before_get (from_connector self) objects url s_r = (Inr to_transfer, s_bg)
            \<and> before_push (to_connector self) to_transfer url s_bg = (Inr (), s_bp)
            \<and> transfer_entries rt self (Path rt url) (snd s_bp objects) s_bp = (Inr (), evs, s_loop)
            \<and> after_get (from_connector self) to_transfer (Path rt url) s_loop = (Inr (), s_ag)
            \<and> after_push (to_connector self) to_transfer (Path rt url) s_ag = (Inl e, s_ap) \<longrightarrow>
            transfer_rec rt self url objects_arg s =
              (Inl (DataTransferError ''''),
               evs_r @ [BeforeGet objects url, BeforePush to_transfer url] @ evs
                 @ [AfterGet to_transfer (Path rt url), AfterPush to_transfer (Path rt url)],
               s_ap))"
  using assms
  by (simp add: transfer_rec_def pre_processing_def post_processing_def stmt_defs)

text \<open>Each of the four hooks raising in turn, on the list \<^verbatim>\<open>["a", "dir/", "b"]\<close>.\<close>

theorem hook_exceptions_become_DataTransferError_witness:
  "before_get (from_connector (transfer_of False False 1)) 0 ''u'' (synced_store 0, some_lists)
     = (Inl (OtherException ''before_get''), (synced_store 0, some_lists))
   \<and> transfer_rec (stages_runtime Faithful) (transfer_of False False 1) ''u'' (Some 0)
       (synced_store 0, some_lists) =
       (Inl (DataTransferError ''''), [BeforeGet 0 ''u''], (synced_store 0, some_lists))
   \<and> before_push (to_connector (transfer_of False False 2)) 0 ''u'' (synced_store 0, some_lists)
     = (Inl (OtherException ''before_push''), (synced_store 0, some_lists))
   \<and> transfer_rec (stages_runtime Faithful) (transfer_of False False 2) ''u'' (Some 0)
       (synced_store 0, some_lists) =
       (Inl (DataTransferError ''''), [BeforeGet 0 ''u'', BeforePush 0 ''u''],
        (synced_store 0, some_lists))
   \<and> after_get (from_connector (transfer_of False False 3)) 0 ''u'' (synced_store 0, some_lists)
     = (Inl (OtherException ''after_get''), (synced_store 0, some_lists))
   \<and> fst (transfer_rec (stages_runtime Faithful) (transfer_of False False 3) ''u'' (Some 0)
       (synced_store 0, some_lists)) = Inl (DataTransferError '''')
   \<and> after_push (to_connector (transfer_of False False 4)) 0 ''u'' (synced_store 0, some_lists)
     = (Inl (OtherException ''after_push''), (synced_store 0, some_lists))
   \<and> fst (transfer_rec (stages_runtime Faithful) (transfer_of False False 4) ''u'' (Some 0)
       (synced_store 0, some_lists)) = Inl (DataTransferError '''')"
proof -
  let ?rt = "stages_runtime Faithful"
  let ?s = "(synced_store 0, some_lists)"
  let ?evs = "[Invoke ''u/a'' ''u/a'', GetHash Source ''u/a'' ''md5'',
               GetHash Destination ''u/a'' ''md5'',
               Invoke ''u/b'' ''u/b'', GetHash Source ''u/b'' ''md5'',
               GetHash Destination ''u/b'' ''md5'']"
  have objects: "snd ?s 0 = [''a'', ''dir/'', ''b'']"
    by (simp add: some_lists_def)
  have loop: "transfer_entries ?rt (transfer_of False False k) (Path ?rt ''u'') (snd ?s 0) ?s =
                (Inr (), ?evs, ?s)" for k
    unfolding objects using transfer_entries_on_synced_store [of Faithful False False k some_lists]
    by simp
  have bg1: "before_get (from_connector (transfer_of False False 1)) 0 ''u'' ?s
               = (Inl (OtherException ''before_get''), ?s)"
    by simp
  have bg: "before_get (from_connector (transfer_of False False k)) 0 ''u'' ?s = (Inr 0, ?s)"
    if "k \<noteq> 1" for k
    using that by simp
  have bp2: "before_push (to_connector (transfer_of False False 2)) 0 ''u'' ?s
               = (Inl (OtherException ''before_push''), ?s)"
    by simp
  have bp: "before_push (to_connector (transfer_of False False k)) 0 ''u'' ?s = (Inr (), ?s)"
    if "k \<noteq> 2" for k
    using that by simp
  have ag3: "after_get (from_connector (transfer_of False False 3)) 0 (Path ?rt ''u'') ?s
               = (Inl (OtherException ''after_get''), ?s)"
    by simp
  have ag4: "after_get (from_connector (transfer_of False False 4)) 0 (Path ?rt ''u'') ?s
               = (Inr (), ?s)"
    by simp
  have ap4: "after_push (to_connector (transfer_of False False 4)) 0 (Path ?rt ''u'') ?s
               = (Inl (OtherException ''after_push''), ?s)"
    by simp
  note thm1 = hook_exceptions_become_DataTransferError
    [where self = "transfer_of False False 1" and url = "''u''" and objects_arg = "Some 0"
       and s = ?s and objects = 0 and evs_r = "[]" and s_r = ?s and rt = ?rt
       and e = "OtherException ''before_get''" and s_bg = ?s,
     OF resolve_objects_given, THEN conjunct1]
  note thm2 = hook_exceptions_become_DataTransferError
    [where self = "transfer_of False False 2" and url = "''u''" and objects_arg = "Some 0"
       and s = ?s and objects = 0 and evs_r = "[]" and s_r = ?s and rt = ?rt
       and e = "OtherException ''before_push''" and s_bg = ?s and to_transfer = 0 and s_bp = ?s,
     OF resolve_objects_given, THEN conjunct2, THEN conjunct1]
  note thm3 = hook_exceptions_become_DataTransferError
    [where self = "transfer_of False False 3" and url = "''u''" and objects_arg = "Some 0"
       and s = ?s and objects = 0 and evs_r = "[]" and s_r = ?s and rt = ?rt
       and e = "OtherException ''after_get''" and s_bg = ?s and to_transfer = 0 and s_bp = ?s
       and evs = ?evs and s_loop = ?s and s_ag = ?s,
     OF resolve_objects_given, THEN conjunct2, THEN conjunct2, THEN conjunct1]
  note thm4 = hook_exceptions_become_DataTransferError
    [where self = "transfer_of False False 4" and url = "''u''" and objects_arg = "Some 0"
       and s = ?s and objects = 0 and evs_r = "[]" and s_r = ?s and rt = ?rt
       and e = "OtherException ''after_push''" and s_bg = ?s and to_transfer = 0 and s_bp = ?s
       and evs = ?evs and s_loop = ?s and s_ag = ?s and s_ap = ?s,
     OF resolve_objects_given, THEN conjunct2, THEN conjunct2, THEN conjunct2]
  have r1: "transfer_rec ?rt (transfer_of False False 1) ''u'' (Some 0) ?s =
              (Inl (DataTransferError ''''), [BeforeGet 0 ''u''], ?s)"
    using thm1 bg1 by simp
  have r2: "transfer_rec ?rt (transfer_of False False 2) ''u'' (Some 0) ?s =
              (Inl (DataTransferError ''''), [BeforeGet 0 ''u'', BeforePush 0 ''u''], ?s)"
    using thm2 bg [of 2] bp2 by simp
  have r3: "fst (transfer_rec ?rt (transfer_of False False 3) ''u'' (Some 0) ?s) =
              Inl (DataTransferError '''')"
    using thm3 bg [of 3] bp [of 3] loop [of 3] ag3 by simp
  have r4: "fst (transfer_rec ?rt (transfer_of False False 4) ''u'' (Some 0) ?s) =
              Inl (DataTransferError '''')"
    using thm4 bg [of 4] bp [of 4] loop [of 4] ag4 ap4 by simp
  from r1 r2 r3 r4 bg1 bp2 ag3 ap4 show ?thesis by simp
qed

end
